theory Spec2Isabelle
  imports Complex_Main
begin

section \<open>Python values used by \<^verbatim>\<open>VisulizarRotasCorreto.py\<close>\<close>

text \<open>
  Exceptions are values: a function that can raise returns \<open>error + 'a\<close>, with \<open>Inl\<close> for the
  exception. Only the exceptions that the modelled code can raise are listed.
\<close>

datatype error = ValueError | TypeError | ZeroDivisionError

definition bindE :: "error + 'a \<Rightarrow> ('a \<Rightarrow> error + 'b) \<Rightarrow> error + 'b" where
  "bindE m f = (case m of Inl e \<Rightarrow> Inl e | Inr v \<Rightarrow> f v)"

text \<open>
  A Python \<^verbatim>\<open>float\<close>. The special values of IEEE 754 are kept apart, since the code
  tests for NaN and the \<^verbatim>\<open>math\<close> module raises on infinities. A finite value is a
  real: the rounding of each operation and the sign of zero are not modelled, so that a
  result that rounding alone decides (a sum that is 0 in exact arithmetic and a little
  below 0 in floating point) is outside this model. No theorem below says that
  \<^verbatim>\<open>haversine_km\<close> returns, except on coordinates in range.
\<close>

datatype pyfloat = Fin real | PInf | NInf | NaN

fun py_neg :: "pyfloat \<Rightarrow> pyfloat" where
  "py_neg (Fin a) = Fin (- a)"
| "py_neg PInf = NInf"
| "py_neg NInf = PInf"
| "py_neg NaN = NaN"

fun py_add :: "pyfloat \<Rightarrow> pyfloat \<Rightarrow> pyfloat" where
  "py_add NaN y = NaN"
| "py_add x NaN = NaN"
| "py_add (Fin a) (Fin b) = Fin (a + b)"
| "py_add PInf NInf = NaN"
| "py_add NInf PInf = NaN"
| "py_add PInf y = PInf"
| "py_add x PInf = PInf"
| "py_add NInf y = NInf"
| "py_add x NInf = NInf"

text \<open>
  A real of magnitude \<open>2 ^ 1024 - 2 ^ 970\<close> or more rounds to an infinity. Of the operations
  of \<^verbatim>\<open>haversine_km\<close> on finite floats only the two subtractions can leave the range of a
  double (\<^verbatim>\<open>2.0**1023 - (-2.0**1023)\<close> is \<^verbatim>\<open>inf\<close>): its products and sums are bounded.
\<close>

definition float_bound :: real where
  "float_bound = 2 ^ 1024 - 2 ^ 970"

definition overflow :: "real \<Rightarrow> pyfloat" where
  "overflow x = (if float_bound \<le> x then PInf else if x \<le> - float_bound then NInf else Fin x)"

fun py_sub :: "pyfloat \<Rightarrow> pyfloat \<Rightarrow> pyfloat" where
  "py_sub (Fin a) (Fin b) = overflow (a - b)"
| "py_sub x y = py_add x (py_neg y)"

fun py_mul :: "pyfloat \<Rightarrow> pyfloat \<Rightarrow> pyfloat" where
  "py_mul NaN y = NaN"
| "py_mul x NaN = NaN"
| "py_mul (Fin a) (Fin b) = Fin (a * b)"
| "py_mul (Fin a) y = (if a = 0 then NaN else if (0 < a) = (y = PInf) then PInf else NInf)"
| "py_mul x (Fin b) = (if b = 0 then NaN else if (0 < b) = (x = PInf) then PInf else NInf)"
| "py_mul x y = (if x = y then PInf else NInf)"

text \<open>\<^verbatim>\<open>x / y\<close> on floats: a zero divisor raises, whatever the dividend.\<close>

fun py_truediv :: "pyfloat \<Rightarrow> pyfloat \<Rightarrow> error + pyfloat" where
  "py_truediv x (Fin b) =
     (if b = 0 then Inl ZeroDivisionError
      else Inr (case x of
                  Fin a \<Rightarrow> Fin (a / b)
                | PInf \<Rightarrow> (if 0 < b then PInf else NInf)
                | NInf \<Rightarrow> (if 0 < b then NInf else PInf)
                | NaN \<Rightarrow> NaN))"
| "py_truediv x NaN = Inr NaN"
| "py_truediv x y = Inr (case x of Fin a \<Rightarrow> Fin 0 | _ \<Rightarrow> NaN)"

text \<open>\<^verbatim>\<open>x ** 2\<close>.\<close>

fun py_pow2 :: "pyfloat \<Rightarrow> pyfloat" where
  "py_pow2 (Fin a) = Fin (a\<^sup>2)"
| "py_pow2 NaN = NaN"
| "py_pow2 x = PInf"

text \<open>\<^verbatim>\<open>x <= y\<close>: every comparison with NaN is false.\<close>

fun py_le :: "pyfloat \<Rightarrow> pyfloat \<Rightarrow> bool" where
  "py_le NaN y = False"
| "py_le x NaN = False"
| "py_le (Fin a) (Fin b) = (a \<le> b)"
| "py_le NInf y = True"
| "py_le x PInf = True"
| "py_le x y = False"

definition py_ge :: "pyfloat \<Rightarrow> pyfloat \<Rightarrow> bool" where
  "py_ge x y = py_le y x"

subsection \<open>The \<^verbatim>\<open>math\<close> module\<close>

text \<open>
  \<^verbatim>\<open>math.radians(x)\<close> multiplies by \<open>pi / 180\<close>. \<^verbatim>\<open>math.sin\<close>, \<^verbatim>\<open>math.cos\<close>,
  \<^verbatim>\<open>math.sqrt\<close> and \<^verbatim>\<open>math.asin\<close> return NaN on NaN and raise \<^verbatim>\<open>ValueError\<close>
  (math domain error) outside their domain, which for sine and cosine means an infinite
  argument.
\<close>

definition math_radians :: "pyfloat \<Rightarrow> pyfloat" where
  "math_radians x = py_mul x (Fin (pi / 180))"

fun math_sin :: "pyfloat \<Rightarrow> error + pyfloat" where
  "math_sin (Fin a) = Inr (Fin (sin a))"
| "math_sin NaN = Inr NaN"
| "math_sin x = Inl ValueError"

fun math_cos :: "pyfloat \<Rightarrow> error + pyfloat" where
  "math_cos (Fin a) = Inr (Fin (cos a))"
| "math_cos NaN = Inr NaN"
| "math_cos x = Inl ValueError"

fun math_sqrt :: "pyfloat \<Rightarrow> error + pyfloat" where
  "math_sqrt (Fin a) = (if a < 0 then Inl ValueError else Inr (Fin (sqrt a)))"
| "math_sqrt NaN = Inr NaN"
| "math_sqrt PInf = Inr PInf"
| "math_sqrt NInf = Inl ValueError"

fun math_asin :: "pyfloat \<Rightarrow> error + pyfloat" where
  "math_asin (Fin a) = (if a < - 1 \<or> 1 < a then Inl ValueError else Inr (Fin (arcsin a)))"
| "math_asin NaN = Inr NaN"
| "math_asin x = Inl ValueError"

section \<open>Great-circle distance\<close>

text \<open>
  \<^verbatim>\<open>haversine_km(a, b)\<close>, module level (lines 104-114) and again inside
  \<^verbatim>\<open>criar_mapa_rotas\<close> (lines 234-244), the two bodies being the same.
\<close>

type_synonym point = "pyfloat \<times> pyfloat"

definition haversine_km :: "point \<Rightarrow> point \<Rightarrow> error + pyfloat" where
  "haversine_km a b =
     (case a of (lat1, lon1) \<Rightarrow> case b of (lat2, lon2) \<Rightarrow>
        let R = Fin 6371;
            phi1 = math_radians lat1;
            phi2 = math_radians lat2;
            dphi = math_radians (py_sub lat2 lat1);
            dlambda = math_radians (py_sub lon2 lon1)
        in bindE (py_truediv dphi (Fin 2)) (\<lambda>hphi.
           bindE (math_sin hphi) (\<lambda>s1.
           bindE (math_cos phi1) (\<lambda>c1.
           bindE (math_cos phi2) (\<lambda>c2.
           bindE (py_truediv dlambda (Fin 2)) (\<lambda>hlambda.
           bindE (math_sin hlambda) (\<lambda>s2.
           let hav = py_add (py_pow2 s1) (py_mul (py_mul c1 c2) (py_pow2 s2))
           in bindE (math_sqrt hav) (\<lambda>r.
              bindE (math_asin r) (\<lambda>t.
              Inr (py_mul (py_mul (Fin 2) R) t))))))))))"

text \<open>The value of the formula on finite coordinates, in degrees.\<close>

definition hav_real :: "real \<Rightarrow> real \<Rightarrow> real \<Rightarrow> real \<Rightarrow> real" where
  "hav_real lat1 lon1 lat2 lon2 =
     (sin ((lat2 - lat1) * (pi / 180) / 2))\<^sup>2
     + cos (lat1 * (pi / 180)) * cos (lat2 * (pi / 180))
       * (sin ((lon2 - lon1) * (pi / 180) / 2))\<^sup>2"

section \<open>The input table\<close>

text \<open>
  A cell of the \<^verbatim>\<open>latitude\<close> or \<^verbatim>\<open>longitude\<close> column: a float (NaN where the loader's
  \<^verbatim>\<open>pd.to_numeric(errors='coerce')\<close> could not parse), or \<^verbatim>\<open>None\<close> in a column of dtype
  object. \<^verbatim>\<open>float(None)\<close> raises \<^verbatim>\<open>TypeError\<close>; \<^verbatim>\<open>pd.isna\<close> holds of NaN and of
  \<^verbatim>\<open>None\<close>.
\<close>

datatype cell = Num pyfloat | NoneVal

fun float_of :: "cell \<Rightarrow> error + pyfloat" where
  "float_of (Num x) = Inr x"
| "float_of NoneVal = Inl TypeError"

fun pd_isna :: "cell \<Rightarrow> bool" where
  "pd_isna (Num x) = (x = NaN)"
| "pd_isna NoneVal = True"

text \<open>
  A row of \<^verbatim>\<open>df_pts\<close>. The \<^verbatim>\<open>datetime\<close> cell is a timestamp in seconds, or \<open>None\<close> for
  \<^verbatim>\<open>NaT\<close>; a table without the column is a table of \<^verbatim>\<open>NaT\<close> (line 127).
\<close>

record row =
  latitude :: cell
  longitude :: cell
  datetime :: "real option"

text \<open>
  Position \<open>i\<close> of the three lists \<^verbatim>\<open>deltas_min\<close>, \<^verbatim>\<open>dists_km\<close>, \<^verbatim>\<open>speeds_kmh\<close>, which the
  loop of lines 132-154 extends together.
\<close>

record edge =
  delta_min :: "real option"
  dist_km :: pyfloat
  speed_kmh :: pyfloat

text \<open>An entry of \<^verbatim>\<open>stops\<close> (line 190).\<close>

record stop =
  start_idx :: nat
  end_idx :: nat
  start_time :: "real option"
  end_time :: "real option"
  duration_min :: "real option"
  centroid :: point

section \<open>The kinematic pass of \<^verbatim>\<open>detectar_paradas\<close> (lines 129-154)\<close>

text \<open>\<^verbatim>\<open>(float(lats[i]), float(lons[i]))\<close>.\<close>

definition coords :: "row \<Rightarrow> error + point" where
  "coords p = bindE (float_of (latitude p)) (\<lambda>x.
              bindE (float_of (longitude p)) (\<lambda>y. Inr (x, y)))"

text \<open>Lines 143-148.\<close>

definition elapsed_min :: "real option \<Rightarrow> real option \<Rightarrow> real option" where
  "elapsed_min t1 t2 =
     (case t1 of None \<Rightarrow> None
      | Some a \<Rightarrow> (case t2 of None \<Rightarrow> None | Some b \<Rightarrow> Some ((b - a) / 60)))"

text \<open>
  Lines 150-153. \<^verbatim>\<open>if dt_min and dt_min > 0\<close> tests the truth value of \<^verbatim>\<open>dt_min\<close> first:
  \<^verbatim>\<open>None\<close> and \<open>0.0\<close> are false.
\<close>

definition speed_of :: "pyfloat \<Rightarrow> real option \<Rightarrow> error + pyfloat" where
  "speed_of d dt_min =
     (case dt_min of
        None \<Rightarrow> Inr (Fin 0)
      | Some dt \<Rightarrow>
          if dt \<noteq> 0 \<and> 0 < dt then
            (if 0 < dt then bindE (py_truediv (Fin dt) (Fin 60)) (\<lambda>h. py_truediv d h)
             else Inr (Fin 0))
          else Inr (Fin 0))"

text \<open>One iteration of the loop, for the rows \<open>i\<close> and \<open>i + 1\<close>.\<close>

definition annotate :: "row \<Rightarrow> row \<Rightarrow> error + edge" where
  "annotate p q =
     (case bindE (coords p) (\<lambda>a. bindE (coords q) (\<lambda>b. Inr (a, b))) of
        Inl e \<Rightarrow> Inr \<lparr>delta_min = None, dist_km = Fin 0, speed_kmh = Fin 0\<rparr>
      | Inr (a, b) \<Rightarrow>
          bindE (haversine_km a b) (\<lambda>d.
            let dt_min = elapsed_min (datetime p) (datetime q)
            in bindE (speed_of d dt_min) (\<lambda>speed.
                 Inr \<lparr>delta_min = dt_min, dist_km = d, speed_kmh = speed\<rparr>)))"

text \<open>The loop over \<^verbatim>\<open>range(len(lats)-1)\<close>: an exception leaves it at once.\<close>

fun edges_of :: "row list \<Rightarrow> error + edge list" where
  "edges_of (p # q # rest) =
     bindE (annotate p q) (\<lambda>e.
     bindE (edges_of (q # rest)) (\<lambda>es. Inr (e # es)))"
| "edges_of rest = Inr []"

section \<open>Low-movement flags (lines 156-164)\<close>

definition low_flag :: "pyfloat \<Rightarrow> pyfloat \<Rightarrow> pyfloat \<Rightarrow> edge \<Rightarrow> bool" where
  "low_flag max_jump_km min_stop_minutes speed_threshold_kmh e =
     ((case delta_min e of
         None \<Rightarrow> False
       | Some dt \<Rightarrow> py_ge (Fin dt) min_stop_minutes \<and> py_le (dist_km e) max_jump_km)
      \<or> py_le (speed_kmh e) speed_threshold_kmh)"

definition low_flags :: "pyfloat \<Rightarrow> pyfloat \<Rightarrow> pyfloat \<Rightarrow> edge list \<Rightarrow> bool list" where
  "low_flags max_jump_km min_stop_minutes speed_threshold_kmh es =
     map (low_flag max_jump_km min_stop_minutes speed_threshold_kmh) es"

section \<open>Grouping runs into stops (lines 166-193)\<close>

text \<open>
  \<^verbatim>\<open>sum(xs)\<close> starts from the integer 0; adding \<^verbatim>\<open>None\<close> would raise. \<^verbatim>\<open>sum(xs)/len(xs)\<close>
  raises \<^verbatim>\<open>ZeroDivisionError\<close> on the empty list.
\<close>

fun py_sum :: "pyfloat \<Rightarrow> cell list \<Rightarrow> error + pyfloat" where
  "py_sum acc [] = Inr acc"
| "py_sum acc (Num x # xs) = py_sum (py_add acc x) xs"
| "py_sum acc (NoneVal # xs) = Inl TypeError"

definition mean :: "cell list \<Rightarrow> error + pyfloat" where
  "mean xs = bindE (py_sum (Fin 0) xs) (\<lambda>s. py_truediv s (Fin (real (length xs))))"

text \<open>
  Lines 176-190 for one run: \<open>None\<close> is the \<^verbatim>\<open>continue\<close> of line 183, which appends
  nothing.
\<close>

definition build_stop :: "row list \<Rightarrow> nat \<Rightarrow> nat \<Rightarrow> error + stop option" where
  "build_stop df idx_start idx_end =
     (let pts_idx = [idx_start ..< idx_end + 1];
          lats_seg = filter (\<lambda>c. \<not> pd_isna c) (map (\<lambda>k. latitude (df ! k)) pts_idx);
          lons_seg = filter (\<lambda>c. \<not> pd_isna c) (map (\<lambda>k. longitude (df ! k)) pts_idx)
      in if length lats_seg = 0 then Inr None
         else bindE (mean lats_seg) (\<lambda>clat.
              bindE (mean lons_seg) (\<lambda>clon.
                let st = datetime (df ! idx_start);
                    en = datetime (df ! idx_end)
                in Inr (Some \<lparr>start_idx = idx_start, end_idx = idx_end,
                              start_time = st, end_time = en,
                              duration_min = elapsed_min st en,
                              centroid = (clat, clon)\<rparr>))))"

text \<open>The inner loop of line 173: the last edge of the run that starts at \<open>i\<close>.\<close>

function run_end :: "bool list \<Rightarrow> nat \<Rightarrow> nat" where
  "run_end flags i =
     (if i + 1 < length flags \<and> flags ! (i + 1) then run_end flags (i + 1) else i)"
  by pat_completeness auto
termination
  by (relation "measure (\<lambda>(flags, i). length flags - i)") auto

declare run_end.simps [simp del]

lemma run_end_ge: "i \<le> run_end flags i"
proof (induction flags i rule: run_end.induct)
  case (1 flags i)
  then show ?case by (subst run_end.simps) auto
qed

text \<open>The outer loop of line 168, from index \<open>i\<close> with the list \<^verbatim>\<open>stops\<close> built so far.\<close>

function stops_loop :: "row list \<Rightarrow> bool list \<Rightarrow> nat \<Rightarrow> stop list \<Rightarrow> error + stop list" where
  "stops_loop df flags i stops =
     (if i < length flags then
        if \<not> flags ! i then stops_loop df flags (i + 1) stops
        else
          (case build_stop df i (run_end flags i + 1) of
             Inl e \<Rightarrow> Inl e
           | Inr None \<Rightarrow> stops_loop df flags (run_end flags i + 1) stops
           | Inr (Some s) \<Rightarrow> stops_loop df flags (run_end flags i + 1) (stops @ [s]))
      else Inr stops)"
  by pat_completeness auto
termination
proof (relation "measure (\<lambda>(df, flags, i, stops). length flags - i)")
  fix df :: "row list" and flags :: "bool list" and i :: nat and stops :: "stop list"
  assume "i < length flags"
  moreover have "i \<le> run_end flags i" by (rule run_end_ge)
  ultimately have "length flags - (run_end flags i + 1) < length flags - i" by simp
  then show "((df, flags, run_end flags i + 1, stops), (df, flags, i, stops))
      \<in> measure (\<lambda>(df, flags, i, stops). length flags - i)" by simp
  fix s :: stop
  from \<open>length flags - (run_end flags i + 1) < length flags - i\<close>
  show "((df, flags, run_end flags i + 1, stops @ [s]), (df, flags, i, stops))
      \<in> measure (\<lambda>(df, flags, i, stops). length flags - i)" by simp
qed auto

declare stops_loop.simps [simp del]

section \<open>\<^verbatim>\<open>detectar_paradas\<close> (lines 117-193)\<close>

definition detectar_paradas ::
  "row list \<Rightarrow> pyfloat \<Rightarrow> pyfloat \<Rightarrow> pyfloat \<Rightarrow> error + stop list" where
  "detectar_paradas df_pts max_jump_km min_stop_minutes speed_threshold_kmh =
     (if length df_pts < 2 then Inr []
      else bindE (edges_of df_pts) (\<lambda>es.
             stops_loop df_pts
               (low_flags max_jump_km min_stop_minutes speed_threshold_kmh es) 0 []))"

text \<open>The defaults of the signature: \<open>0.1\<close>, \<open>30\<close>, \<open>2.0\<close>.\<close>

definition detectar_paradas_default :: "row list \<Rightarrow> error + stop list" where
  "detectar_paradas_default df_pts = detectar_paradas df_pts (Fin (1 / 10)) (Fin 30) (Fin 2)"

section \<open>Route segments in \<^verbatim>\<open>criar_mapa_rotas\<close> (lines 362-375)\<close>

text \<open>
  The loop over \<^verbatim>\<open>zip(pontos[:-1], pontos[1:])\<close> with its two variables \<^verbatim>\<open>segment\<close> and
  \<^verbatim>\<open>segments\<close>, and the final test of line 374.
\<close>

fun segment_loop ::
  "pyfloat \<Rightarrow> (point \<times> point) list \<Rightarrow> point list \<Rightarrow> point list list \<Rightarrow> error + point list list"
where
  "segment_loop max_jump_km [] segment segments =
     Inr (if 2 \<le> length segment then segments @ [segment] else segments)"
| "segment_loop max_jump_km ((a, b) # ps) segment segments =
     bindE (haversine_km a b) (\<lambda>d.
       if py_le d max_jump_km then segment_loop max_jump_km ps (segment @ [b]) segments
       else segment_loop max_jump_km ps [b]
              (if 2 \<le> length segment then segments @ [segment] else segments))"

text \<open>
  \<^verbatim>\<open>pontos\<close> is not empty where the loop runs: line 344 leaves the ship out when
  \<^verbatim>\<open>df_valido\<close> has no row, so that no segment is drawn.
\<close>

definition route_segments :: "pyfloat \<Rightarrow> point list \<Rightarrow> error + point list list" where
  "route_segments max_jump_km pontos =
     (if pontos = [] then Inr []
      else segment_loop max_jump_km (zip (butlast pontos) (tl pontos)) [hd pontos] [])"

text \<open>Line 362: \<^verbatim>\<open>max_jump_km = 100.0\<close>.\<close>

definition criar_mapa_rotas_segments :: "point list \<Rightarrow> error + point list list" where
  "criar_mapa_rotas_segments pontos = route_segments (Fin 100) pontos"

section \<open>Notions used to state the properties\<close>

text \<open>The flags that \<^verbatim>\<open>detectar_paradas\<close> computes from the table, empty when the pass raises.\<close>

definition flags_of :: "row list \<Rightarrow> pyfloat \<Rightarrow> pyfloat \<Rightarrow> pyfloat \<Rightarrow> bool list" where
  "flags_of df max_jump_km min_stop_minutes speed_threshold_kmh =
     (case edges_of df of
        Inl e \<Rightarrow> []
      | Inr es \<Rightarrow> low_flags max_jump_km min_stop_minutes speed_threshold_kmh es)"

text \<open>
  The edges \<open>s, \<dots>, e\<close> are a maximal run of flagged edges: all flagged, with no flagged
  edge just before or just after.
\<close>

definition maximal_run :: "bool list \<Rightarrow> nat \<Rightarrow> nat \<Rightarrow> bool" where
  "maximal_run flags s e \<longleftrightarrow>
     s \<le> e \<and> e < length flags \<and> (\<forall>k\<in>{s..e}. flags ! k)
     \<and> (s = 0 \<or> \<not> flags ! (s - 1)) \<and> (e + 1 = length flags \<or> \<not> flags ! (e + 1))"

text \<open>The latitudes present among the rows \<open>a, \<dots>, b\<close> (line 179).\<close>

definition present_lats :: "row list \<Rightarrow> nat \<Rightarrow> nat \<Rightarrow> cell list" where
  "present_lats df a b = filter (\<lambda>c. \<not> pd_isna c) (map (\<lambda>k. latitude (df ! k)) [a ..< b + 1])"

definition has_lat :: "row list \<Rightarrow> nat \<Rightarrow> nat \<Rightarrow> bool" where
  "has_lat df a b \<longleftrightarrow> (\<exists>k\<in>{a..b}. \<not> pd_isna (latitude (df ! k)))"

text \<open>What the loop of line 168 has appended when it ends, having started at edge \<open>i\<close>.\<close>

definition stops_ok :: "row list \<Rightarrow> bool list \<Rightarrow> nat \<Rightarrow> stop list \<Rightarrow> bool" where
  "stops_ok df flags i new \<longleftrightarrow>
     (\<forall>s\<in>set new. i \<le> start_idx s \<and> start_idx s < end_idx s
         \<and> maximal_run flags (start_idx s) (end_idx s - 1)
         \<and> build_stop df (start_idx s) (end_idx s) = Inr (Some s))
     \<and> sorted_wrt (\<lambda>a b. end_idx a < start_idx b) new
     \<and> (\<forall>a e. i \<le> a \<and> maximal_run flags a e \<and> has_lat df a (e + 1)
            \<longrightarrow> (\<exists>s\<in>set new. start_idx s = a \<and> end_idx s = e + 1))"

text \<open>Two points at a haversine distance of at most \<^verbatim>\<open>max_jump_km\<close> (the test of line 367).\<close>

definition near :: "pyfloat \<Rightarrow> point \<Rightarrow> point \<Rightarrow> bool" where
  "near max_jump_km a b =
     (case haversine_km a b of Inl e \<Rightarrow> False | Inr d \<Rightarrow> py_le d max_jump_km)"

text \<open>
  The point at index \<open>i\<close> has no neighbour within \<^verbatim>\<open>max_jump_km\<close>: a jump, or an end of
  the sequence, on each side. These are the single points that no segment keeps.
\<close>

definition isolated :: "pyfloat \<Rightarrow> point list \<Rightarrow> nat \<Rightarrow> bool" where
  "isolated max_jump_km pts i \<longleftrightarrow>
     (i = 0 \<or> \<not> near max_jump_km (pts ! (i - 1)) (pts ! i))
     \<and> (i + 1 = length pts \<or> \<not> near max_jump_km (pts ! i) (pts ! (i + 1)))"

text \<open>The input sequence without its isolated points.\<close>

definition retained :: "pyfloat \<Rightarrow> point list \<Rightarrow> point list" where
  "retained max_jump_km pts =
     map (\<lambda>i. pts ! i) (filter (\<lambda>i. \<not> isolated max_jump_km pts i) [0 ..< length pts])"

text \<open>
  For the proofs: the input cut at every jump, the points that survive given whether the
  previous point was near, and isolation with the left neighbour of index 0 given.
\<close>

fun chunks :: "pyfloat \<Rightarrow> point list \<Rightarrow> point list list" where
  "chunks mj [] = []"
| "chunks mj [x] = [[x]]"
| "chunks mj (x # y # r) =
     (if near mj x y then
        (case chunks mj (y # r) of [] \<Rightarrow> [[x]] | c # cs \<Rightarrow> (x # c) # cs)
      else [x] # chunks mj (y # r))"

fun keep :: "pyfloat \<Rightarrow> bool \<Rightarrow> point list \<Rightarrow> point list" where
  "keep mj prev [] = []"
| "keep mj prev [x] = (if prev then [x] else [])"
| "keep mj prev (x # y # r) =
     (if prev \<or> near mj x y then x # keep mj (near mj x y) (y # r)
      else keep mj False (y # r))"

definition lonely :: "pyfloat \<Rightarrow> bool \<Rightarrow> point list \<Rightarrow> nat \<Rightarrow> bool" where
  "lonely mj prev pts i \<longleftrightarrow>
     (if i = 0 then \<not> prev else \<not> near mj (pts ! (i - 1)) (pts ! i))
     \<and> (i + 1 = length pts \<or> \<not> near mj (pts ! i) (pts ! (i + 1)))"


text \<open>A row with both coordinates present.\<close>

definition present_row :: "row \<Rightarrow> bool" where
  "present_row r \<longleftrightarrow> \<not> pd_isna (latitude r) \<and> \<not> pd_isna (longitude r)"

text \<open>
  An isolated single point stranded between two large jumps, as the specification words
  it: a jump before it and a jump after it. The first and the last point of the sequence
  are never between two jumps.
\<close>

definition between_jumps :: "pyfloat \<Rightarrow> point list \<Rightarrow> nat \<Rightarrow> bool" where
  "between_jumps max_jump_km pts i \<longleftrightarrow>
     0 < i \<and> i + 1 < length pts
     \<and> \<not> near max_jump_km (pts ! (i - 1)) (pts ! i)
     \<and> \<not> near max_jump_km (pts ! i) (pts ! (i + 1))"

text \<open>The input sequence without the points stranded between two large jumps.\<close>

definition spec_retained :: "pyfloat \<Rightarrow> point list \<Rightarrow> point list" where
  "spec_retained max_jump_km pts =
     map (\<lambda>i. pts ! i) (filter (\<lambda>i. \<not> between_jumps max_jump_km pts i) [0 ..< length pts])"

text \<open>\<^verbatim>\<open>haversine_km\<close> returns on the two points.\<close>

definition dist_returns :: "point \<Rightarrow> point \<Rightarrow> bool" where
  "dist_returns a b \<longleftrightarrow> (\<exists>d. haversine_km a b = Inr d)"

section \<open>Helper lemmas\<close>

lemma hav_identity:
  fixes p q :: real
  shows "cos p * cos q = (cos ((p + q) / 2))\<^sup>2 - (sin ((q - p) / 2))\<^sup>2"
proof -
  have "2 * ((p + q) / 2) = p + q" "2 * ((q - p) / 2) = q - p" by simp_all
  then have a: "(cos ((p + q) / 2))\<^sup>2 = (1 + cos (p + q)) / 2"
    and b: "(sin ((q - p) / 2))\<^sup>2 = (1 - cos (q - p)) / 2"
    using cos_double_cos [of "(p + q) / 2"] cos_double_sin [of "(q - p) / 2"]
    by (simp_all only: ) (simp_all add: field_simps)
  show ?thesis unfolding a b by (simp add: cos_add cos_diff field_simps)
qed

lemma hav_range:
  fixes p q l :: real
  defines "h \<equiv> (sin ((q - p) / 2))\<^sup>2 + cos p * cos q * (sin (l / 2))\<^sup>2"
  shows "0 \<le> h" and "h \<le> 1"
proof -
  define A where "A = (sin ((q - p) / 2))\<^sup>2"
  define B where "B = (cos ((p + q) / 2))\<^sup>2"
  define t where "t = (sin (l / 2))\<^sup>2"
  have A: "0 \<le> A" "A \<le> 1" by (simp_all add: A_def abs_square_le_1)
  have B: "0 \<le> B" "B \<le> 1" by (simp_all add: B_def abs_square_le_1)
  have t: "0 \<le> t" "t \<le> 1" by (simp_all add: t_def abs_square_le_1)
  have h: "h = (1 - t) * A + t * B"
    unfolding h_def A_def B_def t_def hav_identity [of p q] by (simp add: algebra_simps)
  have "0 \<le> (1 - t) * A" "0 \<le> t * B" using A B t by simp_all
  then show "0 \<le> h" unfolding h by linarith
  have "(1 - t) * A \<le> (1 - t) * 1" using A t by (intro mult_left_mono) simp_all
  moreover have "t * B \<le> t * 1" using B t by (intro mult_left_mono) simp_all
  ultimately show "h \<le> 1" unfolding h by (simp add: algebra_simps)
qed

lemma hav_real_range: "0 \<le> hav_real x1 y1 x2 y2" "hav_real x1 y1 x2 y2 \<le> 1"
proof -
  have e: "(x2 - x1) * (pi / 180) = x2 * (pi / 180) - x1 * (pi / 180)"
    by (rule left_diff_distrib)
  show "0 \<le> hav_real x1 y1 x2 y2" "hav_real x1 y1 x2 y2 \<le> 1"
    unfolding hav_real_def e
    using hav_range [where p = "x1 * (pi / 180)" and q = "x2 * (pi / 180)" and l = "(y2 - y1) * (pi / 180)"]
    by simp_all
qed

lemma hav_real_sym: "hav_real x1 y1 x2 y2 = hav_real x2 y2 x1 y1"
proof -
  have "sin ((x1 - x2) * (pi / 180) / 2) = - sin ((x2 - x1) * (pi / 180) / 2)"
    by (metis minus_diff_eq mult_minus_left minus_divide_left sin_minus)
  moreover have "sin ((y1 - y2) * (pi / 180) / 2) = - sin ((y2 - y1) * (pi / 180) / 2)"
    by (metis minus_diff_eq mult_minus_left minus_divide_left sin_minus)
  ultimately show ?thesis by (simp add: hav_real_def)
qed

lemma arcsin_nonneg: "0 \<le> x \<Longrightarrow> x \<le> 1 \<Longrightarrow> 0 \<le> arcsin x"
  using arcsin_le_arcsin [of 0 x] by simp

lemma arcsin_le_half_pi: "0 \<le> x \<Longrightarrow> x \<le> 1 \<Longrightarrow> arcsin x \<le> pi / 2"
  using arcsin_ubound [of x] by simp

lemma float_bound_gt: "1000 < float_bound"
  by (simp add: float_bound_def)

lemma overflow_Fin: "\<bar>x\<bar> < float_bound \<Longrightarrow> overflow x = Fin x"
  by (auto simp: overflow_def)

lemma overflow_small [simp]: "\<bar>x\<bar> \<le> 1000 \<Longrightarrow> overflow x = Fin x"
  using float_bound_gt by (intro overflow_Fin) linarith

lemma haversine_km_Fin:
  assumes "\<bar>x2 - x1\<bar> < float_bound" "\<bar>y2 - y1\<bar> < float_bound"
  shows "haversine_km (Fin x1, Fin y1) (Fin x2, Fin y2)
     = Inr (Fin (2 * 6371 * arcsin (sqrt (hav_real x1 y1 x2 y2))))"
proof -
  have h0: "\<not> hav_real x1 y1 x2 y2 < 0" using hav_real_range(1) [of x1 y1 x2 y2] by simp
  have "sqrt (hav_real x1 y1 x2 y2) \<le> 1"
    using hav_real_range(2) [of x1 y1 x2 y2] by simp
  moreover have "0 \<le> sqrt (hav_real x1 y1 x2 y2)"
    using hav_real_range(1) [of x1 y1 x2 y2] by simp
  ultimately have h1: "\<not> (sqrt (hav_real x1 y1 x2 y2) < - 1 \<or> 1 < sqrt (hav_real x1 y1 x2 y2))"
    by linarith
  have "haversine_km (Fin x1, Fin y1) (Fin x2, Fin y2)
      = bindE (math_sqrt (Fin (hav_real x1 y1 x2 y2))) (\<lambda>r.
          bindE (math_asin r) (\<lambda>t. Inr (py_mul (py_mul (Fin 2) (Fin 6371)) t)))"
    by (simp add: haversine_km_def math_radians_def overflow_Fin [OF assms(1)]
        overflow_Fin [OF assms(2)] bindE_def hav_real_def Let_def)
  also have "\<dots> = Inr (Fin (2 * 6371 * arcsin (sqrt (hav_real x1 y1 x2 y2))))"
    using h0 h1 by (simp add: bindE_def)
  finally show ?thesis .
qed

lemma float_bound_pos: "0 < float_bound"
  using float_bound_gt by simp

lemma haversine_km_same: "haversine_km (Fin x, Fin y) (Fin x, Fin y) = Inr (Fin 0)"
proof -
  have "hav_real x y x y = 0" by (simp add: hav_real_def)
  then show ?thesis by (simp add: haversine_km_Fin float_bound_pos)
qed

lemma haversine_km_500:
  "haversine_km (Fin 0, Fin 0) (Fin (90000 / (6371 * pi)), Fin 0) = Inr (Fin 500)"
proof -
  have arg: "(90000 / (6371 * pi) - 0) * (pi / 180) / 2 = 250 / 6371"
    by (simp add: field_simps)
  have h: "hav_real 0 0 (90000 / (6371 * pi)) 0 = (sin (250 / 6371))\<^sup>2"
    unfolding hav_real_def arg by simp
  have b: "(0::real) \<le> 250 / 6371" "(250::real) / 6371 \<le> pi / 2"
    using pi_ge_two by simp_all
  then have "0 \<le> sin (250 / 6371 :: real)"
    using sin_ge_zero [of "250 / 6371"] by simp
  then have "sqrt (hav_real 0 0 (90000 / (6371 * pi)) 0) = sin (250 / 6371)"
    by (simp add: h)
  moreover have "arcsin (sin (250 / 6371 :: real)) = 250 / 6371"
    using b by (intro arcsin_sin) simp_all
  moreover have "\<bar>90000 / (6371 * pi) - 0\<bar> < float_bound"
  proof -
    have "90000 / (6371 * pi) \<le> 90000 / (6371 * 2)"
      using pi_ge_two by (intro divide_left_mono) simp_all
    then have "\<bar>90000 / (6371 * pi) - 0\<bar> \<le> 1000" by simp
    with float_bound_gt show ?thesis by linarith
  qed
  ultimately show ?thesis by (simp add: haversine_km_Fin float_bound_pos)
qed

subsection \<open>The kinematic pass\<close>




lemma edges_of_nth:
  "edges_of df = Inr es \<Longrightarrow>
     length es = length df - 1 \<and> (\<forall>i<length es. annotate (df ! i) (df ! (i + 1)) = Inr (es ! i))"
proof (induction df arbitrary: es rule: edges_of.induct)
  case (1 p q rest)
  from "1.prems" obtain e where e: "annotate p q = Inr e"
    by (cases "annotate p q") (simp_all add: bindE_def)
  from "1.prems" e obtain es' where es': "edges_of (q # rest) = Inr es'"
    by (cases "edges_of (q # rest)") (simp_all add: bindE_def)
  from "1.prems" e es' have es: "es = e # es'" by (simp add: bindE_def)
  from "1.IH" [OF es'] have len: "length es' = length (q # rest) - 1"
    and nth: "\<And>i. i < length es' \<Longrightarrow> annotate ((q # rest) ! i) ((q # rest) ! (i + 1)) = Inr (es' ! i)"
    by simp_all
  have "annotate ((p # q # rest) ! i) ((p # q # rest) ! (i + 1)) = Inr (es ! i)"
    if "i < length es" for i
  proof (cases i)
    case 0
    with e es show ?thesis by simp
  next
    case (Suc j)
    with that es have "j < length es'" by simp
    from nth [OF this] Suc es show ?thesis by simp
  qed
  with len es show ?case by simp
qed simp_all

subsection \<open>Runs and stops\<close>

lemma run_end_step:
  "i + 1 < length flags \<and> flags ! (i + 1) \<Longrightarrow> run_end flags i = run_end flags (i + 1)"
  by (subst run_end.simps) simp

lemma run_end_done:
  "\<not> (i + 1 < length flags \<and> flags ! (i + 1)) \<Longrightarrow> run_end flags i = i"
  by (subst run_end.simps) auto

lemma run_end_lt: "i < length flags \<Longrightarrow> run_end flags i < length flags"
proof (induction flags i rule: run_end.induct)
  case (1 flags i)
  then show ?case by (subst run_end.simps) auto
qed

lemma run_end_flagged: "i < k \<Longrightarrow> k \<le> run_end flags i \<Longrightarrow> flags ! k"
proof (induction flags i rule: run_end.induct)
  case (1 flags i)
  show ?case
  proof (cases "i + 1 < length flags \<and> flags ! (i + 1)")
    case True
    then have eq: "run_end flags i = run_end flags (i + 1)" by (rule run_end_step)
    show ?thesis
    proof (cases "k = i + 1")
      case True
      with \<open>i + 1 < length flags \<and> flags ! (i + 1)\<close> show ?thesis by simp
    next
      case False
      with "1.prems" eq have "i + 1 < k" "k \<le> run_end flags (i + 1)" by simp_all
      with "1.IH" [OF True] show ?thesis by simp
    qed
  next
    case False
    then have "run_end flags i = i" by (rule run_end_done)
    with "1.prems" show ?thesis by simp
  qed
qed

lemma run_end_stop: "run_end flags i + 1 < length flags \<Longrightarrow> \<not> flags ! (run_end flags i + 1)"
proof (induction flags i rule: run_end.induct)
  case (1 flags i)
  show ?case
  proof (cases "i + 1 < length flags \<and> flags ! (i + 1)")
    case True
    then have eq: "run_end flags i = run_end flags (i + 1)" by (rule run_end_step)
    with "1.IH" [OF True] "1.prems" show ?thesis by simp
  next
    case False
    then have "run_end flags i = i" by (rule run_end_done)
    with False "1.prems" show ?thesis by simp
  qed
qed

lemma run_end_unique:
  "s \<le> e \<Longrightarrow> e < length flags \<Longrightarrow> (\<forall>k. s < k \<and> k \<le> e \<longrightarrow> flags ! k) \<Longrightarrow>
   e + 1 = length flags \<or> \<not> flags ! (e + 1) \<Longrightarrow> run_end flags s = e"
proof (induction flags s rule: run_end.induct)
  case (1 flags i)
  show ?case
  proof (cases "i = e")
    case True
    with "1.prems" have "\<not> (i + 1 < length flags \<and> flags ! (i + 1))" by auto
    then have "run_end flags i = i" by (rule run_end_done)
    with True show ?thesis by simp
  next
    case False
    with "1.prems" have c: "i + 1 < length flags \<and> flags ! (i + 1)" by auto
    then have eq: "run_end flags i = run_end flags (i + 1)" by (rule run_end_step)
    from False "1.prems" have "i + 1 \<le> e" by simp
    from "1.IH" [OF c this "1.prems"(2) _ "1.prems"(4)] "1.prems"(3) eq show ?thesis by simp
  qed
qed

lemma run_is_maximal:
  assumes "i < length flags" "flags ! i" "i = 0 \<or> \<not> flags ! (i - 1)"
  shows "maximal_run flags i (run_end flags i)"
proof -
  have "flags ! k" if "k \<in> {i..run_end flags i}" for k
  proof (cases "k = i")
    case True
    with assms(2) show ?thesis by simp
  next
    case False
    with that have "i < k" "k \<le> run_end flags i" by simp_all
    then show ?thesis by (rule run_end_flagged)
  qed
  moreover have "run_end flags i + 1 = length flags \<or> \<not> flags ! (run_end flags i + 1)"
    using run_end_stop [of flags i] run_end_lt [OF assms(1)] by (cases "run_end flags i + 1 < length flags") simp_all
  ultimately show ?thesis
    using assms run_end_ge [of i flags] run_end_lt [OF assms(1)] by (simp add: maximal_run_def)
qed

lemma run_cases:
  assumes "i < length flags" "flags ! i" "maximal_run flags a e" "i \<le> a"
  shows "(a = i \<and> e = run_end flags i) \<or> run_end flags i + 1 < a"
proof (cases "a = i")
  case True
  from assms(3) have "a \<le> e" "e < length flags" "\<forall>k. a < k \<and> k \<le> e \<longrightarrow> flags ! k"
    "e + 1 = length flags \<or> \<not> flags ! (e + 1)"
    by (auto simp: maximal_run_def)
  from run_end_unique [OF this] True show ?thesis by simp
next
  case False
  with assms(4) have ia: "i < a" by simp
  from assms(3) have fa: "flags ! a" and al: "a < length flags"
    and left: "a = 0 \<or> \<not> flags ! (a - 1)"
    by (auto simp: maximal_run_def)
  have "\<not> a \<le> run_end flags i"
  proof
    assume le: "a \<le> run_end flags i"
    have "flags ! (a - 1)"
    proof (cases "a - 1 = i")
      case True
      with assms(2) show ?thesis by simp
    next
      case False
      with ia le have "i < a - 1" "a - 1 \<le> run_end flags i" by simp_all
      then show ?thesis by (rule run_end_flagged)
    qed
    with left ia show False by simp
  qed
  moreover have "a \<noteq> run_end flags i + 1"
    using run_end_stop [of flags i] fa al by auto
  ultimately show ?thesis by simp
qed

lemma has_lat_filter:
  "has_lat df a b \<longleftrightarrow>
     filter (\<lambda>c. \<not> pd_isna c) (map (\<lambda>k. latitude (df ! k)) [a ..< b + 1]) \<noteq> []"
  by (auto simp: has_lat_def filter_empty_conv)

lemma build_stop_None: "build_stop df a b = Inr None \<Longrightarrow> \<not> has_lat df a b"
  unfolding has_lat_filter
  by (auto simp: build_stop_def Let_def bindE_def split: if_splits sum.splits)

lemma build_stop_Some:
  assumes "build_stop df a b = Inr (Some s)"
  shows "start_idx s = a" "end_idx s = b" "has_lat df a b"
    "mean (filter (\<lambda>c. \<not> pd_isna c) (map (\<lambda>k. latitude (df ! k)) [a ..< b + 1]))
       = Inr (fst (centroid s))"
    "mean (filter (\<lambda>c. \<not> pd_isna c) (map (\<lambda>k. longitude (df ! k)) [a ..< b + 1]))
       = Inr (snd (centroid s))"
    "start_time s = datetime (df ! a)" "end_time s = datetime (df ! b)"
    "duration_min s = elapsed_min (datetime (df ! a)) (datetime (df ! b))"
  using assms unfolding has_lat_filter
  by (auto simp: build_stop_def Let_def bindE_def split: if_splits sum.splits)

lemma stops_ok_nil: "\<not> i < length flags \<Longrightarrow> stops_ok df flags i []"
  by (auto simp: stops_ok_def maximal_run_def)

lemma stops_ok_skip:
  assumes "i < length flags" "\<not> flags ! i" "stops_ok df flags (i + 1) new"
  shows "stops_ok df flags i new"
proof -
  have "i + 1 \<le> a" if "i \<le> a" "maximal_run flags a e" for a e
  proof -
    from that(2) have "flags ! a" by (auto simp: maximal_run_def)
    with assms(2) have "a \<noteq> i" by auto
    with that(1) show ?thesis by simp
  qed
  with assms(3) show ?thesis unfolding stops_ok_def by fastforce
qed

lemma stops_ok_discard:
  assumes "i < length flags" "flags ! i"
    and "build_stop df i (run_end flags i + 1) = Inr None"
    and "stops_ok df flags (run_end flags i + 1) new"
  shows "stops_ok df flags i new"
proof -
  have ge: "i \<le> run_end flags i + 1" using run_end_ge [of i flags] by simp
  have "run_end flags i + 1 \<le> a"
    if "i \<le> a" "maximal_run flags a e" "has_lat df a (e + 1)" for a e
  proof -
    from run_cases [OF assms(1,2) that(2,1)]
    show ?thesis
    proof
      assume "a = i \<and> e = run_end flags i"
      with that(3) build_stop_None [OF assms(3)] show ?thesis by simp
    next
      assume "run_end flags i + 1 < a"
      then show ?thesis by simp
    qed
  qed
  with assms(4) ge show ?thesis unfolding stops_ok_def by fastforce
qed

lemma stops_ok_cons:
  assumes "i < length flags" "flags ! i" "i = 0 \<or> \<not> flags ! (i - 1)"
    and "build_stop df i (run_end flags i + 1) = Inr (Some s)"
    and "stops_ok df flags (run_end flags i + 1) new"
  shows "stops_ok df flags i (s # new)"
proof -
  let ?j = "run_end flags i"
  have ge: "i \<le> ?j" by (rule run_end_ge)
  have s: "start_idx s = i" "end_idx s = ?j + 1"
    using build_stop_Some(1,2) [OF assms(4)] by simp_all
  have mr: "maximal_run flags i ?j" by (rule run_is_maximal [OF assms(1,2,3)])
  have later: "?j + 1 < start_idx t" if "t \<in> set new" for t
  proof -
    from assms(5) that have "?j + 1 \<le> start_idx t"
      and m: "maximal_run flags (start_idx t) (end_idx t - 1)"
      by (auto simp: stops_ok_def)
    with ge have "i \<le> start_idx t" by simp
    from run_cases [OF assms(1,2) m this] \<open>?j + 1 \<le> start_idx t\<close> ge show ?thesis by auto
  qed
  have elems: "\<forall>t\<in>set (s # new). i \<le> start_idx t \<and> start_idx t < end_idx t
         \<and> maximal_run flags (start_idx t) (end_idx t - 1)
         \<and> build_stop df (start_idx t) (end_idx t) = Inr (Some t)"
  proof
    fix t assume "t \<in> set (s # new)"
    then consider "t = s" | "t \<in> set new" by auto
    then show "i \<le> start_idx t \<and> start_idx t < end_idx t
         \<and> maximal_run flags (start_idx t) (end_idx t - 1)
         \<and> build_stop df (start_idx t) (end_idx t) = Inr (Some t)"
    proof cases
      case 1
      with s mr ge assms(4) show ?thesis by simp
    next
      case 2
      with assms(5) have "start_idx t < end_idx t"
        "maximal_run flags (start_idx t) (end_idx t - 1)"
        "build_stop df (start_idx t) (end_idx t) = Inr (Some t)"
        by (auto simp: stops_ok_def)
      with later [OF 2] ge show ?thesis by simp
    qed
  qed
  have sorted: "sorted_wrt (\<lambda>a b. end_idx a < start_idx b) (s # new)"
    using assms(5) later s by (auto simp: stops_ok_def)
  have compl: "\<exists>t\<in>set (s # new). start_idx t = a \<and> end_idx t = e + 1"
    if "i \<le> a" "maximal_run flags a e" "has_lat df a (e + 1)" for a e
  proof -
    from run_cases [OF assms(1,2) that(2,1)]
    show ?thesis
    proof
      assume "a = i \<and> e = ?j"
      with s show ?thesis by simp
    next
      assume "?j + 1 < a"
      then have "?j + 1 \<le> a" by simp
      with assms(5) that(2,3) have "\<exists>t\<in>set new. start_idx t = a \<and> end_idx t = e + 1"
        unfolding stops_ok_def by blast
      then show ?thesis by auto
    qed
  qed
  from elems sorted compl show ?thesis unfolding stops_ok_def by blast
qed

lemma stops_loop_char:
  "stops_loop df flags i stops = Inr res \<Longrightarrow>
   (i < length flags \<and> flags ! i \<longrightarrow> i = 0 \<or> \<not> flags ! (i - 1)) \<Longrightarrow>
   \<exists>new. res = stops @ new \<and> stops_ok df flags i new"
proof (induction df flags i stops arbitrary: res rule: stops_loop.induct)
  case (1 df flags i stops)
  show ?case
  proof (cases "i < length flags")
    case False
    with "1.prems"(1) have "res = stops" by (subst (asm) stops_loop.simps) simp
    with stops_ok_nil [OF False] show ?thesis by simp
  next
    case lt: True
    show ?thesis
    proof (cases "flags ! i")
      case False
      from "1.prems"(1) lt False have run: "stops_loop df flags (i + 1) stops = Inr res"
        by (subst (asm) stops_loop.simps) simp
      have inv: "i + 1 < length flags \<and> flags ! (i + 1) \<longrightarrow> i + 1 = 0 \<or> \<not> flags ! (i + 1 - 1)"
        using False by simp
      from "1.IH"(1) [OF lt False run inv] obtain new
        where "res = stops @ new" "stops_ok df flags (i + 1) new" by blast
      with stops_ok_skip [OF lt False] show ?thesis by blast
    next
      case True
      let ?j = "run_end flags i"
      have nn: "\<not> \<not> flags ! i" using True by simp
      have inv: "?j + 1 < length flags \<and> flags ! (?j + 1)
          \<longrightarrow> ?j + 1 = 0 \<or> \<not> flags ! (?j + 1 - 1)"
        using run_end_stop [of flags i] by blast
      from "1.prems"(2) lt True have left: "i = 0 \<or> \<not> flags ! (i - 1)" by simp
      show ?thesis
      proof (cases "build_stop df i (?j + 1)")
        case (Inl e)
        with "1.prems"(1) lt True show ?thesis by (subst (asm) stops_loop.simps) simp
      next
        case (Inr b)
        show ?thesis
        proof (cases b)
          case None
          from "1.prems"(1) lt True Inr None
          have run: "stops_loop df flags (?j + 1) stops = Inr res"
            by (subst (asm) stops_loop.simps) simp
          from "1.IH"(2) [OF lt nn Inr None run inv] obtain new
            where "res = stops @ new" "stops_ok df flags (?j + 1) new" by blast
          with stops_ok_discard [OF lt True] Inr None show ?thesis by blast
        next
          case (Some s)
          from "1.prems"(1) lt True Inr Some
          have run: "stops_loop df flags (?j + 1) (stops @ [s]) = Inr res"
            by (subst (asm) stops_loop.simps) simp
          from "1.IH"(3) [OF lt nn Inr Some run inv] obtain new
            where new: "res = (stops @ [s]) @ new" "stops_ok df flags (?j + 1) new" by blast
          from Inr Some have "build_stop df i (?j + 1) = Inr (Some s)" by simp
          from stops_ok_cons [OF lt True left this new(2)] new(1)
          show ?thesis by simp
        qed
      qed
    qed
  qed
qed

lemma edges_of_short: "length df < 2 \<Longrightarrow> edges_of df = Inr []"
  by (cases df rule: edges_of.cases) simp_all

lemma detectar_paradas_char:
  assumes "detectar_paradas df mj ms st = Inr stops"
  shows "stops_ok df (flags_of df mj ms st) 0 stops"
    and "length (flags_of df mj ms st) = length df - 1"
proof -
  show len: "length (flags_of df mj ms st) = length df - 1"
  proof (cases "edges_of df")
    case (Inl e)
    with assms have "length df < 2"
      by (simp add: detectar_paradas_def bindE_def split: if_splits)
    with Inl show ?thesis by (simp add: edges_of_short)
  next
    case (Inr es)
    with edges_of_nth [OF Inr] show ?thesis by (simp add: flags_of_def low_flags_def)
  qed
  show "stops_ok df (flags_of df mj ms st) 0 stops"
  proof (cases "length df < 2")
    case True
    with assms have "stops = []" by (simp add: detectar_paradas_def)
    moreover from True len have "\<not> 0 < length (flags_of df mj ms st)" by simp
    ultimately show ?thesis using stops_ok_nil by simp
  next
    case False
    with assms obtain es where es: "edges_of df = Inr es"
      and run: "stops_loop df (low_flags mj ms st es) 0 [] = Inr stops"
      by (cases "edges_of df") (simp_all add: detectar_paradas_def bindE_def)
    from es have fl: "flags_of df mj ms st = low_flags mj ms st es" by (simp add: flags_of_def)
    from stops_loop_char [OF run] show ?thesis by (simp add: fl)
  qed
qed

lemma maximal_run_same_start:
  assumes "maximal_run flags a e" "maximal_run flags a e'"
  shows "e = e'"
proof -
  have "run_end flags a = e" if "maximal_run flags a e" for e
  proof -
    from that have "a \<le> e" "e < length flags" "\<forall>k. a < k \<and> k \<le> e \<longrightarrow> flags ! k"
      "e + 1 = length flags \<or> \<not> flags ! (e + 1)"
      by (auto simp: maximal_run_def)
    then show ?thesis by (rule run_end_unique)
  qed
  from this [OF assms(1)] this [OF assms(2)] show ?thesis by simp
qed

subsection \<open>Tables of two rows\<close>

lemma present_lats_has_lat: "present_lats df a b \<noteq> [] \<longleftrightarrow> has_lat df a b"
  by (simp add: has_lat_filter present_lats_def)

lemma detectar_single_edge:
  assumes "edges_of [p, q] = Inr [e]" "low_flag mj ms st e"
  shows "detectar_paradas [p, q] mj ms st =
           (case build_stop [p, q] 0 1 of
              Inl x \<Rightarrow> Inl x
            | Inr None \<Rightarrow> Inr []
            | Inr (Some s) \<Rightarrow> Inr [s])"
proof -
  have fl: "low_flags mj ms st [e] = [True]" using assms(2) by (simp add: low_flags_def)
  have re: "run_end [True] 0 = 0" by (simp add: run_end.simps)
  have stop1: "stops_loop [p, q] [True] (Suc 0) acc = Inr acc" for acc
    by (subst stops_loop.simps) simp
  have "stops_loop [p, q] [True] 0 [] =
           (case build_stop [p, q] 0 1 of
              Inl x \<Rightarrow> Inl x
            | Inr None \<Rightarrow> Inr []
            | Inr (Some s) \<Rightarrow> Inr [s])"
    by (subst stops_loop.simps) (simp add: re stop1 split: sum.splits option.splits)
  then show ?thesis
    unfolding detectar_paradas_def assms(1) by (simp add: bindE_def fl)
qed

lemma detectar_two_rows_same:
  "detectar_paradas [\<lparr>latitude = Num (Fin 0), longitude = Num (Fin 0), datetime = None\<rparr>,
                     \<lparr>latitude = Num (Fin 0), longitude = Num (Fin 0), datetime = None\<rparr>]
       mj ms (Fin 2)
     = Inr [\<lparr>start_idx = 0, end_idx = 1, start_time = None, end_time = None,
             duration_min = None, centroid = (Fin 0, Fin 0)\<rparr>]"
proof -
  have ed: "edges_of [\<lparr>latitude = Num (Fin 0), longitude = Num (Fin 0), datetime = None\<rparr>,
                     \<lparr>latitude = Num (Fin 0), longitude = Num (Fin 0), datetime = None\<rparr>]
      = Inr [\<lparr>delta_min = None, dist_km = Fin 0, speed_kmh = Fin 0\<rparr>]"
    by (simp add: annotate_def coords_def bindE_def haversine_km_same elapsed_min_def
        speed_of_def)
  have lf: "low_flag mj ms (Fin 2) \<lparr>delta_min = None, dist_km = Fin 0, speed_kmh = Fin 0\<rparr>"
    by (simp add: low_flag_def)
  have bs: "build_stop [\<lparr>latitude = Num (Fin 0), longitude = Num (Fin 0), datetime = None\<rparr>,
                     \<lparr>latitude = Num (Fin 0), longitude = Num (Fin 0), datetime = None\<rparr>] 0 1
     = Inr (Some \<lparr>start_idx = 0, end_idx = 1, start_time = None, end_time = None,
             duration_min = None, centroid = (Fin 0, Fin 0)\<rparr>)"
    by (simp add: build_stop_def mean_def bindE_def elapsed_min_def Let_def)
  show ?thesis using bs by (simp add: detectar_single_edge [OF ed lf])
qed

lemma edges_nan_rows:
  "edges_of [\<lparr>latitude = Num NaN, longitude = Num NaN, datetime = None\<rparr>,
             \<lparr>latitude = Num NaN, longitude = Num NaN, datetime = None\<rparr>]
      = Inr [\<lparr>delta_min = None, dist_km = NaN, speed_kmh = Fin 0\<rparr>]"
  by (simp add: annotate_def coords_def bindE_def haversine_km_def math_radians_def
      elapsed_min_def speed_of_def)

lemma longitudes_missing_raises:
  "detectar_paradas_default
     [\<lparr>latitude = Num (Fin 0), longitude = Num NaN, datetime = None\<rparr>,
      \<lparr>latitude = Num (Fin 0), longitude = Num NaN, datetime = None\<rparr>]
     = Inl ZeroDivisionError"
proof -
  have ed: "edges_of [\<lparr>latitude = Num (Fin 0), longitude = Num NaN, datetime = None\<rparr>,
      \<lparr>latitude = Num (Fin 0), longitude = Num NaN, datetime = None\<rparr>]
      = Inr [\<lparr>delta_min = None, dist_km = NaN, speed_kmh = Fin 0\<rparr>]"
    by (simp add: annotate_def coords_def bindE_def haversine_km_def math_radians_def
        elapsed_min_def speed_of_def)
  have lf: "low_flag (Fin (1 / 10)) (Fin 30) (Fin 2)
      \<lparr>delta_min = None, dist_km = NaN, speed_kmh = Fin 0\<rparr>"
    by (simp add: low_flag_def)
  have bs: "build_stop [\<lparr>latitude = Num (Fin 0), longitude = Num NaN, datetime = None\<rparr>,
      \<lparr>latitude = Num (Fin 0), longitude = Num NaN, datetime = None\<rparr>] 0 1
     = Inl ZeroDivisionError"
    by (simp add: build_stop_def mean_def bindE_def Let_def)
  show ?thesis
    using bs by (simp add: detectar_paradas_default_def detectar_single_edge [OF ed lf])
qed

subsection \<open>Tables that return, and four tables evaluated\<close>

lemma py_sum_present: "\<forall>c\<in>set cs. \<not> pd_isna c \<Longrightarrow> \<exists>s. py_sum acc cs = Inr s"
proof (induction cs arbitrary: acc)
  case Nil
  then show ?case by simp
next
  case (Cons c cs)
  from Cons.prems have "\<not> pd_isna c" by simp
  then obtain x where "c = Num x" by (cases c) simp_all
  with Cons show ?case by simp
qed

lemma mean_present:
  assumes "cs \<noteq> []" "\<forall>c\<in>set cs. \<not> pd_isna c"
  shows "\<exists>m. mean cs = Inr m"
proof -
  from py_sum_present [OF assms(2)] obtain s where s: "py_sum (Fin 0) cs = Inr s" by blast
  from assms(1) have "real (length cs) \<noteq> 0" by simp
  then have "\<exists>m. py_truediv s (Fin (real (length cs))) = Inr m" by simp
  with s show ?thesis by (simp add: mean_def bindE_def)
qed

lemma build_stop_present:
  assumes "\<forall>r\<in>set df. present_row r" "a \<le> b" "b < length df"
  shows "\<exists>r. build_stop df a b = Inr r"
proof -
  let ?lats = "map (\<lambda>k. latitude (df ! k)) [a ..< b + 1]"
  let ?lons = "map (\<lambda>k. longitude (df ! k)) [a ..< b + 1]"
  have pr: "present_row (df ! k)" if "k \<in> set [a ..< b + 1]" for k
  proof -
    from that assms(3) have "k < length df" by auto
    then have "df ! k \<in> set df" by (rule nth_mem)
    with assms(1) show ?thesis by blast
  qed
  have la: "\<forall>c\<in>set ?lats. \<not> pd_isna c" and lo: "\<forall>c\<in>set ?lons. \<not> pd_isna c"
    using pr by (auto simp: present_row_def)
  from la have fla: "filter (\<lambda>c. \<not> pd_isna c) ?lats = ?lats" by (intro filter_True) auto
  from lo have flo: "filter (\<lambda>c. \<not> pd_isna c) ?lons = ?lons" by (intro filter_True) auto
  from assms(2) have ne: "?lats \<noteq> []" "?lons \<noteq> []" by simp_all
  from mean_present [OF ne(1) la] obtain m1 where m1: "mean ?lats = Inr m1" by blast
  from mean_present [OF ne(2) lo] obtain m2 where m2: "mean ?lons = Inr m2" by blast
  show ?thesis
    unfolding build_stop_def Let_def fla flo using ne m1 m2 by (simp add: bindE_def)
qed

lemma stops_loop_total:
  "(\<And>a b. a \<le> b \<Longrightarrow> b \<le> length flags \<Longrightarrow> \<exists>r. build_stop df a b = Inr r) \<Longrightarrow>
   \<exists>res. stops_loop df flags i stops = Inr res"
proof (induction df flags i stops rule: stops_loop.induct)
  case (1 df flags i stops)
  show ?case
  proof (cases "i < length flags")
    case False
    then show ?thesis by (subst stops_loop.simps) simp
  next
    case lt: True
    show ?thesis
    proof (cases "flags ! i")
      case False
      from "1.IH"(1) [OF lt False "1.prems"] lt False show ?thesis
        by (subst stops_loop.simps) simp
    next
      case True
      let ?j = "run_end flags i"
      have nn: "\<not> \<not> flags ! i" using True by simp
      have "i \<le> ?j + 1" "?j + 1 \<le> length flags"
        using run_end_ge [of i flags] run_end_lt [OF lt] by simp_all
      from "1.prems" [OF this] obtain r where r: "build_stop df i (?j + 1) = Inr r" by blast
      show ?thesis
      proof (cases r)
        case None
        from "1.IH"(2) [OF lt nn r None "1.prems"] lt True r None show ?thesis
          by (subst stops_loop.simps) simp
      next
        case (Some s)
        from "1.IH"(3) [OF lt nn r Some "1.prems"] lt True r Some show ?thesis
          by (subst stops_loop.simps) simp
      qed
    qed
  qed
qed

lemma detectar_paradas_returns:
  assumes "edges_of df = Inr es" "\<forall>r\<in>set df. present_row r"
  shows "\<exists>stops. detectar_paradas df mj ms st = Inr stops"
proof (cases "length df < 2")
  case True
  then show ?thesis by (simp add: detectar_paradas_def)
next
  case False
  from edges_of_nth [OF assms(1)] have len: "length (low_flags mj ms st es) = length df - 1"
    by (simp add: low_flags_def)
  have "\<exists>r. build_stop df a b = Inr r" if "a \<le> b" "b \<le> length (low_flags mj ms st es)" for a b
    using build_stop_present [OF assms(2) that(1)] that(2) len False by simp
  from stops_loop_total [of "low_flags mj ms st es" df 0 "[]", OF this]
  obtain res where "stops_loop df (low_flags mj ms st es) 0 [] = Inr res" by blast
  with assms(1) False show ?thesis by (simp add: detectar_paradas_def bindE_def)
qed

lemma edges_rows4:
  "edges_of [\<lparr>latitude = Num (Fin 0), longitude = Num (Fin 0), datetime = Some 0\<rparr>,
      \<lparr>latitude = Num (Fin 0), longitude = Num (Fin 0), datetime = Some 60\<rparr>,
      \<lparr>latitude = Num (Fin (90000 / (6371 * pi))), longitude = Num (Fin 0), datetime = Some 120\<rparr>,
      \<lparr>latitude = Num (Fin (90000 / (6371 * pi))), longitude = Num (Fin 0), datetime = Some 180\<rparr>]
     = Inr [\<lparr>delta_min = Some 1, dist_km = Fin 0, speed_kmh = Fin 0\<rparr>,
            \<lparr>delta_min = Some 1, dist_km = Fin 500, speed_kmh = Fin 30000\<rparr>,
            \<lparr>delta_min = Some 1, dist_km = Fin 0, speed_kmh = Fin 0\<rparr>]"
  by (simp add: annotate_def coords_def bindE_def haversine_km_same haversine_km_500
      elapsed_min_def speed_of_def)

lemma flags_rows4:
  "low_flags (Fin (1 / 10)) (Fin 30) (Fin 2)
     [\<lparr>delta_min = Some 1, dist_km = Fin 0, speed_kmh = Fin 0\<rparr>,
      \<lparr>delta_min = Some 1, dist_km = Fin 500, speed_kmh = Fin 30000\<rparr>,
      \<lparr>delta_min = Some 1, dist_km = Fin 0, speed_kmh = Fin 0\<rparr>] = [True, False, True]"
  by (simp add: low_flags_def low_flag_def py_ge_def)

lemma detectar_rows4:
  "detectar_paradas [\<lparr>latitude = Num (Fin 0), longitude = Num (Fin 0), datetime = Some 0\<rparr>,
      \<lparr>latitude = Num (Fin 0), longitude = Num (Fin 0), datetime = Some 60\<rparr>,
      \<lparr>latitude = Num (Fin (90000 / (6371 * pi))), longitude = Num (Fin 0), datetime = Some 120\<rparr>,
      \<lparr>latitude = Num (Fin (90000 / (6371 * pi))), longitude = Num (Fin 0), datetime = Some 180\<rparr>] (Fin (1 / 10)) (Fin 30) (Fin 2)
     = Inr [\<lparr>start_idx = 0, end_idx = 1, start_time = Some 0, end_time = Some 60,
        duration_min = Some 1, centroid = (Fin 0, Fin 0)\<rparr>,
            \<lparr>start_idx = 2, end_idx = 3, start_time = Some 120, end_time = Some 180,
        duration_min = Some 1, centroid = (Fin (90000 / (6371 * pi)), Fin 0)\<rparr>]"
proof -
  let ?R = "[\<lparr>latitude = Num (Fin 0), longitude = Num (Fin 0), datetime = Some 0\<rparr>,
      \<lparr>latitude = Num (Fin 0), longitude = Num (Fin 0), datetime = Some 60\<rparr>,
      \<lparr>latitude = Num (Fin (90000 / (6371 * pi))), longitude = Num (Fin 0), datetime = Some 120\<rparr>,
      \<lparr>latitude = Num (Fin (90000 / (6371 * pi))), longitude = Num (Fin 0), datetime = Some 180\<rparr>]"
  let ?F = "[True, False, True]"
  have re: "run_end ?F 0 = 0" "run_end ?F 2 = 2"
    by (simp_all add: run_end.simps)
  have b1: "build_stop ?R 0 (run_end ?F 0 + 1) = Inr (Some \<lparr>start_idx = 0, end_idx = 1, start_time = Some 0, end_time = Some 60,
        duration_min = Some 1, centroid = (Fin 0, Fin 0)\<rparr>)"
    by (simp add: re build_stop_def mean_def bindE_def elapsed_min_def Let_def)
  have b2: "build_stop ?R 2 (run_end ?F 2 + 1) = Inr (Some \<lparr>start_idx = 2, end_idx = 3, start_time = Some 120, end_time = Some 180,
        duration_min = Some 1, centroid = (Fin (90000 / (6371 * pi)), Fin 0)\<rparr>)"
    by (simp add: re build_stop_def mean_def bindE_def elapsed_min_def Let_def upt_conv_Cons)
  have "stops_loop ?R ?F 0 [] = stops_loop ?R ?F (run_end ?F 0 + 1) [\<lparr>start_idx = 0, end_idx = 1, start_time = Some 0, end_time = Some 60,
        duration_min = Some 1, centroid = (Fin 0, Fin 0)\<rparr>]"
    using b1 by (subst stops_loop.simps) simp
  also have "\<dots> = stops_loop ?R ?F 1 [\<lparr>start_idx = 0, end_idx = 1, start_time = Some 0, end_time = Some 60,
        duration_min = Some 1, centroid = (Fin 0, Fin 0)\<rparr>]" by (simp add: re)
  also have "\<dots> = stops_loop ?R ?F 2 [\<lparr>start_idx = 0, end_idx = 1, start_time = Some 0, end_time = Some 60,
        duration_min = Some 1, centroid = (Fin 0, Fin 0)\<rparr>]"
    by (subst stops_loop.simps) (simp add: numeral_2_eq_2)
  also have "\<dots> = stops_loop ?R ?F (run_end ?F 2 + 1) [\<lparr>start_idx = 0, end_idx = 1, start_time = Some 0, end_time = Some 60,
        duration_min = Some 1, centroid = (Fin 0, Fin 0)\<rparr>,
            \<lparr>start_idx = 2, end_idx = 3, start_time = Some 120, end_time = Some 180,
        duration_min = Some 1, centroid = (Fin (90000 / (6371 * pi)), Fin 0)\<rparr>]"
    using b2 by (subst stops_loop.simps) simp
  also have "\<dots> = stops_loop ?R ?F 3 [\<lparr>start_idx = 0, end_idx = 1, start_time = Some 0, end_time = Some 60,
        duration_min = Some 1, centroid = (Fin 0, Fin 0)\<rparr>,
            \<lparr>start_idx = 2, end_idx = 3, start_time = Some 120, end_time = Some 180,
        duration_min = Some 1, centroid = (Fin (90000 / (6371 * pi)), Fin 0)\<rparr>]" by (simp only: re) simp
  also have "\<dots> = Inr [\<lparr>start_idx = 0, end_idx = 1, start_time = Some 0, end_time = Some 60,
        duration_min = Some 1, centroid = (Fin 0, Fin 0)\<rparr>,
            \<lparr>start_idx = 2, end_idx = 3, start_time = Some 120, end_time = Some 180,
        duration_min = Some 1, centroid = (Fin (90000 / (6371 * pi)), Fin 0)\<rparr>]" by (subst stops_loop.simps) simp
  finally show ?thesis
    unfolding detectar_paradas_def edges_rows4 by (simp add: bindE_def flags_rows4)
qed

lemma flags_of_rows4: "flags_of [\<lparr>latitude = Num (Fin 0), longitude = Num (Fin 0), datetime = Some 0\<rparr>,
      \<lparr>latitude = Num (Fin 0), longitude = Num (Fin 0), datetime = Some 60\<rparr>,
      \<lparr>latitude = Num (Fin (90000 / (6371 * pi))), longitude = Num (Fin 0), datetime = Some 120\<rparr>,
      \<lparr>latitude = Num (Fin (90000 / (6371 * pi))), longitude = Num (Fin 0), datetime = Some 180\<rparr>] (Fin (1 / 10)) (Fin 30) (Fin 2) = [True, False, True]"
  unfolding flags_of_def edges_rows4 by (simp add: flags_rows4)

lemma flags_of_nan_rows: "flags_of [\<lparr>latitude = Num (NaN), longitude = Num (NaN), datetime = None\<rparr>,
      \<lparr>latitude = Num (NaN), longitude = Num (NaN), datetime = None\<rparr>] (Fin (1 / 10)) (Fin 30) (Fin 2) = [True]"
  unfolding flags_of_def edges_nan_rows by (simp add: low_flags_def low_flag_def)

lemma detectar_nan_rows: "detectar_paradas [\<lparr>latitude = Num (NaN), longitude = Num (NaN), datetime = None\<rparr>,
      \<lparr>latitude = Num (NaN), longitude = Num (NaN), datetime = None\<rparr>] (Fin (1 / 10)) (Fin 30) (Fin 2) = Inr []"
proof -
  have lf: "low_flag (Fin (1 / 10)) (Fin 30) (Fin 2)
      \<lparr>delta_min = None, dist_km = NaN, speed_kmh = Fin 0\<rparr>"
    by (simp add: low_flag_def)
  have bs: "build_stop [\<lparr>latitude = Num (NaN), longitude = Num (NaN), datetime = None\<rparr>,
      \<lparr>latitude = Num (NaN), longitude = Num (NaN), datetime = None\<rparr>] 0 (Suc 0) = Inr None"
    by (simp add: build_stop_def Let_def)
  show ?thesis using bs by (simp add: detectar_single_edge [OF edges_nan_rows lf])
qed

lemma detectar_scenario_C_time: "detectar_paradas [\<lparr>latitude = Num (Fin 0), longitude = Num (Fin 0), datetime = Some 0\<rparr>,
      \<lparr>latitude = Num (NaN), longitude = Num (NaN), datetime = Some 600\<rparr>,
      \<lparr>latitude = Num (Fin 0), longitude = Num (Fin 0), datetime = Some 1200\<rparr>] (Fin (1 / 10)) (Fin 30) (Fin 2) = Inr []"
proof -
  have ed: "edges_of [\<lparr>latitude = Num (Fin 0), longitude = Num (Fin 0), datetime = Some 0\<rparr>,
      \<lparr>latitude = Num (NaN), longitude = Num (NaN), datetime = Some 600\<rparr>,
      \<lparr>latitude = Num (Fin 0), longitude = Num (Fin 0), datetime = Some 1200\<rparr>]
      = Inr [\<lparr>delta_min = Some 10, dist_km = NaN, speed_kmh = NaN\<rparr>,
             \<lparr>delta_min = Some 10, dist_km = NaN, speed_kmh = NaN\<rparr>]"
    by (simp add: annotate_def coords_def bindE_def haversine_km_def math_radians_def elapsed_min_def speed_of_def)
  have fl: "low_flags (Fin (1 / 10)) (Fin 30) (Fin 2)
      [\<lparr>delta_min = Some 10, dist_km = NaN, speed_kmh = NaN\<rparr>,
       \<lparr>delta_min = Some 10, dist_km = NaN, speed_kmh = NaN\<rparr>] = [False, False]"
    by (simp add: low_flags_def low_flag_def py_ge_def)
  have "stops_loop [\<lparr>latitude = Num (Fin 0), longitude = Num (Fin 0), datetime = Some 0\<rparr>,
      \<lparr>latitude = Num (NaN), longitude = Num (NaN), datetime = Some 600\<rparr>,
      \<lparr>latitude = Num (Fin 0), longitude = Num (Fin 0), datetime = Some 1200\<rparr>] [False, False] 0 [] = Inr []"
    by (simp add: stops_loop.simps)
  then show ?thesis unfolding detectar_paradas_def ed by (simp add: bindE_def fl)
qed

lemma detectar_scenario_C_no_time: "detectar_paradas [\<lparr>latitude = Num (Fin 0), longitude = Num (Fin 0), datetime = None\<rparr>,
      \<lparr>latitude = Num (NaN), longitude = Num (NaN), datetime = None\<rparr>,
      \<lparr>latitude = Num (Fin 0), longitude = Num (Fin 0), datetime = None\<rparr>] (Fin (1 / 10)) (Fin 30) (Fin 2) = Inr [\<lparr>start_idx = 0, end_idx = 2, start_time = None, end_time = None,
        duration_min = None, centroid = (Fin 0, Fin 0)\<rparr>]"
proof -
  have ed: "edges_of [\<lparr>latitude = Num (Fin 0), longitude = Num (Fin 0), datetime = None\<rparr>,
      \<lparr>latitude = Num (NaN), longitude = Num (NaN), datetime = None\<rparr>,
      \<lparr>latitude = Num (Fin 0), longitude = Num (Fin 0), datetime = None\<rparr>]
      = Inr [\<lparr>delta_min = None, dist_km = NaN, speed_kmh = Fin 0\<rparr>,
             \<lparr>delta_min = None, dist_km = NaN, speed_kmh = Fin 0\<rparr>]"
    by (simp add: annotate_def coords_def bindE_def haversine_km_def math_radians_def elapsed_min_def speed_of_def)
  have fl: "low_flags (Fin (1 / 10)) (Fin 30) (Fin 2)
      [\<lparr>delta_min = None, dist_km = NaN, speed_kmh = Fin 0\<rparr>,
       \<lparr>delta_min = None, dist_km = NaN, speed_kmh = Fin 0\<rparr>] = [True, True]"
    by (simp add: low_flags_def low_flag_def)
  let ?R = "[\<lparr>latitude = Num (Fin 0), longitude = Num (Fin 0), datetime = None\<rparr>,
      \<lparr>latitude = Num (NaN), longitude = Num (NaN), datetime = None\<rparr>,
      \<lparr>latitude = Num (Fin 0), longitude = Num (Fin 0), datetime = None\<rparr>]"
  have re: "run_end [True, True] 0 = 1" by (simp add: run_end.simps)
  have bs: "build_stop ?R 0 (run_end [True, True] 0 + 1) = Inr (Some \<lparr>start_idx = 0, end_idx = 2, start_time = None, end_time = None,
        duration_min = None, centroid = (Fin 0, Fin 0)\<rparr>)"
    by (simp add: re build_stop_def mean_def bindE_def elapsed_min_def Let_def upt_conv_Cons)
  have "stops_loop ?R [True, True] 0 [] = stops_loop ?R [True, True] (run_end [True, True] 0 + 1) [\<lparr>start_idx = 0, end_idx = 2, start_time = None, end_time = None,
        duration_min = None, centroid = (Fin 0, Fin 0)\<rparr>]"
    using bs by (subst stops_loop.simps) simp
  also have "\<dots> = stops_loop ?R [True, True] 2 [\<lparr>start_idx = 0, end_idx = 2, start_time = None, end_time = None,
        duration_min = None, centroid = (Fin 0, Fin 0)\<rparr>]"
    by (simp only: re) (simp add: numeral_2_eq_2)
  also have "\<dots> = Inr [\<lparr>start_idx = 0, end_idx = 2, start_time = None, end_time = None,
        duration_min = None, centroid = (Fin 0, Fin 0)\<rparr>]" by (subst stops_loop.simps) simp
  finally show ?thesis unfolding detectar_paradas_def ed by (simp add: bindE_def fl)
qed

subsection \<open>Route segments\<close>

lemma chunks_ne: "chunks mj (x # r) \<noteq> []"
  by (induction mj "x # r" arbitrary: x r rule: chunks.induct) (auto split: list.splits)

lemma chunks_elem_ne: "c \<in> set (chunks mj pts) \<Longrightarrow> c \<noteq> []"
  by (induction mj pts arbitrary: c rule: chunks.induct) (auto split: list.splits if_splits)

lemma concat_chunks: "concat (chunks mj pts) = pts"
  by (induction mj pts rule: chunks.induct) (auto split: list.splits)

lemma hd_chunks: "chunks mj (x # r) = c # cs \<Longrightarrow> hd c = x \<and> c \<noteq> []"
  by (cases r) (auto split: list.splits if_splits)

lemma chunks_successively:
  "c \<in> set (chunks mj pts) \<Longrightarrow> successively (near mj) c"
proof (induction mj pts arbitrary: c rule: chunks.induct)
  case (3 mj x y r)
  show ?case
  proof (cases "near mj x y")
    case True
    obtain c' cs where cc: "chunks mj (y # r) = c' # cs"
      using chunks_ne [of mj y r] by (cases "chunks mj (y # r)") auto
    from hd_chunks [OF cc] have h: "hd c' = y" "c' \<noteq> []" by simp_all
    from "3.prems" True cc have "c = x # c' \<or> c \<in> set cs" by simp
    then show ?thesis
    proof
      assume c: "c = x # c'"
      from "3.IH"(1) [OF True, of c'] cc have "successively (near mj) c'" by simp
      with c True h show ?thesis by (simp add: successively_Cons)
    next
      assume "c \<in> set cs"
      with "3.IH"(1) [OF True, of c] cc show ?thesis by simp
    qed
  next
    case False
    with "3.prems" have "c = [x] \<or> c \<in> set (chunks mj (y # r))" by simp
    with "3.IH"(2) [OF False, of c] show ?thesis by auto
  qed
qed simp_all

lemma successively_nth:
  "successively P xs \<Longrightarrow> i + 1 < length xs \<Longrightarrow> P (xs ! i) (xs ! (i + 1))"
proof (induction P xs arbitrary: i rule: successively.induct)
  case (3 P x y xs)
  then show ?case by (cases i) simp_all
qed simp_all

lemma chunks_split:
  "\<not> near mj a b \<Longrightarrow> chunks mj (xs @ a # b # ys) = chunks mj (xs @ [a]) @ chunks mj (b # ys)"
proof (induction xs)
  case Nil
  then show ?case by simp
next
  case (Cons x xs)
  obtain z zs where z: "xs @ [a] = z # zs" by (cases "xs @ [a]") simp_all
  then have z': "xs @ a # b # ys = z # zs @ b # ys" by (metis append_Cons append_assoc append_Nil)
  obtain c cs where cc: "chunks mj (z # zs) = c # cs"
    using chunks_ne [of mj z zs] by (cases "chunks mj (z # zs)") auto
  from Cons have ih: "chunks mj (z # zs @ b # ys) = (c # cs) @ chunks mj (b # ys)"
    by (simp add: z z' cc)
  show ?case by (simp add: z z' cc ih)
qed

lemma keep_chunks:
  "keep mj prev (x # r) =
     (case chunks mj (x # r) of
        [] \<Rightarrow> []
      | c # cs \<Rightarrow> (if prev \<or> 2 \<le> length c then c else []) @ concat (filter (\<lambda>c. 2 \<le> length c) cs))"
proof (induction r arbitrary: x prev)
  case Nil
  then show ?case by simp
next
  case (Cons y r)
  obtain c cs where cc: "chunks mj (y # r) = c # cs"
    using chunks_ne [of mj y r] by (cases "chunks mj (y # r)") auto
  from hd_chunks [OF cc] have ne: "c \<noteq> []" by simp
  then have l: "Suc 0 \<le> length c" by (cases c) simp_all
  show ?case using Cons [of True y] Cons [of False y] cc l by simp
qed

lemma concat_segments_keep:
  "concat (filter (\<lambda>c. 2 \<le> length c) (chunks mj pts)) = keep mj False pts"
proof (cases pts)
  case Nil
  then show ?thesis by simp
next
  case (Cons x r)
  obtain c cs where cc: "chunks mj (x # r) = c # cs"
    using chunks_ne [of mj x r] by (cases "chunks mj (x # r)") auto
  show ?thesis by (simp add: Cons keep_chunks cc)
qed

lemma lonely_Suc:
  "lonely mj prev (x # y # r) (Suc i) = lonely mj (near mj x y) (y # r) i"
  by (cases i) (simp_all add: lonely_def)

lemma upt_0_Suc: "[0 ..< Suc n] = 0 # map Suc [0 ..< n]"
  unfolding map_Suc_upt by (rule upt_conv_Cons) simp

lemma keep_lonely:
  "keep mj prev pts = map (\<lambda>i. pts ! i) (filter (\<lambda>i. \<not> lonely mj prev pts i) [0 ..< length pts])"
proof (induction mj prev pts rule: keep.induct)
  case (1 mj prev)
  then show ?case by simp
next
  case (2 mj prev x)
  then show ?case by (simp add: lonely_def)
next
  case (3 mj prev x y r)
  let ?pts = "x # y # r"
  let ?n = "length (y # r)"
  have upt: "[0 ..< length ?pts] = 0 # map Suc [0 ..< ?n]"
    by (simp only: length_Cons upt_0_Suc)
  have tl: "map (\<lambda>i. ?pts ! i) (filter (\<lambda>i. \<not> lonely mj p ?pts i) (map Suc ns))
      = map (\<lambda>i. (y # r) ! i) (filter (\<lambda>i. \<not> lonely mj (near mj x y) (y # r) i) ns)" for ns p
    by (simp add: filter_map comp_def lonely_Suc)
  have i0: "lonely mj p ?pts 0 \<longleftrightarrow> \<not> p \<and> \<not> near mj x y" for p
    by (simp add: lonely_def)
  show ?case
  proof (cases "prev \<or> near mj x y")
    case True
    with "3.IH"(1) [OF True] show ?thesis
      unfolding upt by (simp add: i0 tl del: upt_Suc)
  next
    case False
    then have "near mj x y = False" by simp
    with "3.IH"(2) [OF False] False show ?thesis
      unfolding upt by (simp add: i0 tl del: upt_Suc)
  qed
qed

lemma concat_segments_retained:
  "concat (filter (\<lambda>c. 2 \<le> length c) (chunks mj pts)) = retained mj pts"
proof -
  have "lonely mj False pts = isolated mj pts" by (rule ext) (simp add: lonely_def isolated_def)
  then show ?thesis by (simp add: concat_segments_keep keep_lonely retained_def)
qed

lemma segment_loop_returns:
  "segment_loop mj (zip (butlast (x # r)) (tl (x # r))) seg segs = Inr res \<Longrightarrow>
   successively dist_returns (x # r)"
proof (induction r arbitrary: x seg segs res)
  case Nil
  then show ?case by simp
next
  case (Cons y r)
  have z: "zip (butlast (x # y # r)) (tl (x # y # r)) = (x, y) # zip (butlast (y # r)) (tl (y # r))"
    by simp
  from Cons.prems obtain d where d: "haversine_km x y = Inr d"
    unfolding z by (cases "haversine_km x y") (simp_all add: bindE_def)
  from Cons.prems d obtain seg' segs' where
    "segment_loop mj (zip (butlast (y # r)) (tl (y # r))) seg' segs' = Inr res"
    unfolding z by (cases "py_le d mj") (simp_all add: bindE_def)
  from Cons.IH [OF this] d show ?case by (auto simp: dist_returns_def)
qed

lemma segment_loop_chunks:
  "successively dist_returns (x # r) \<Longrightarrow>
   segment_loop mj (zip (butlast (x # r)) (tl (x # r))) (seg @ [x]) segs
     = Inr (segs @ filter (\<lambda>c. 2 \<le> length c)
                     (case chunks mj (x # r) of [] \<Rightarrow> [] | c # cs \<Rightarrow> (seg @ c) # cs))"
proof (induction r arbitrary: x seg segs)
  case Nil
  then show ?case by simp
next
  case (Cons y r)
  from Cons.prems have ok: "successively dist_returns (y # r)"
    and "dist_returns x y" by simp_all
  then obtain d where d: "haversine_km x y = Inr d" by (auto simp: dist_returns_def)
  then have nr: "near mj x y = py_le d mj" by (simp add: near_def)
  obtain c cs where cc: "chunks mj (y # r) = c # cs"
    using chunks_ne [of mj y r] by (cases "chunks mj (y # r)") auto
  have z: "zip (butlast (x # y # r)) (tl (x # y # r)) = (x, y) # zip (butlast (y # r)) (tl (y # r))"
    by simp
  show ?case
  proof (cases "near mj x y")
    case True
    from Cons.IH [OF ok, of "seg @ [x]" segs] cc
    have "segment_loop mj (zip (butlast (y # r)) (tl (y # r))) ((seg @ [x]) @ [y]) segs
      = Inr (segs @ filter (\<lambda>c. 2 \<le> length c) (((seg @ [x]) @ c) # cs))" by simp
    with True nr d cc show ?thesis unfolding z by (simp add: bindE_def)
  next
    case False
    let ?segs = "if 2 \<le> length (seg @ [x]) then segs @ [seg @ [x]] else segs"
    from Cons.IH [OF ok, of "[]" ?segs] cc
    have "segment_loop mj (zip (butlast (y # r)) (tl (y # r))) [y] ?segs
      = Inr (?segs @ filter (\<lambda>c. 2 \<le> length c) (c # cs))" by simp
    with False nr d cc show ?thesis unfolding z by (simp add: bindE_def)
  qed
qed

lemma route_segments_chunks:
  assumes "successively dist_returns pontos"
  shows "route_segments mj pontos = Inr (filter (\<lambda>c. 2 \<le> length c) (chunks mj pontos))"
proof (cases pontos)
  case Nil
  then show ?thesis by (simp add: route_segments_def)
next
  case (Cons x r)
  obtain c cs where cc: "chunks mj (x # r) = c # cs"
    using chunks_ne [of mj x r] by (cases "chunks mj (x # r)") auto
  from assms Cons have "successively dist_returns (x # r)" by simp
  from segment_loop_chunks [OF this, of mj "[]" "[]"] cc Cons
  show ?thesis by (simp add: route_segments_def)
qed

lemma route_segments_returns:
  assumes "route_segments mj pontos = Inr segments"
  shows "successively dist_returns pontos"
proof (cases pontos)
  case Nil
  then show ?thesis by simp
next
  case (Cons x r)
  with assms have "segment_loop mj (zip (butlast (x # r)) (tl (x # r))) [x] [] = Inr segments"
    by (simp add: route_segments_def)
  from segment_loop_returns [OF this] Cons show ?thesis by simp
qed

subsection \<open>Great-circle distance beyond the range of a double\<close>

lemma overflow_inf: "float_bound \<le> \<bar>x\<bar> \<Longrightarrow> overflow x = PInf \<or> overflow x = NInf"
  by (auto simp: overflow_def)

lemma haversine_km_lat_overflow:
  assumes "float_bound \<le> \<bar>x2 - x1\<bar>"
  shows "haversine_km (Fin x1, Fin y1) (Fin x2, Fin y2) = Inl ValueError"
  using overflow_inf [OF assms]
  by (auto simp: haversine_km_def math_radians_def bindE_def Let_def)

lemma haversine_km_lon_overflow:
  assumes "\<bar>x2 - x1\<bar> < float_bound" "float_bound \<le> \<bar>y2 - y1\<bar>"
  shows "haversine_km (Fin x1, Fin y1) (Fin x2, Fin y2) = Inl ValueError"
  using overflow_inf [OF assms(2)]
  by (auto simp: haversine_km_def math_radians_def bindE_def Let_def overflow_Fin [OF assms(1)])

lemma haversine_km_sym:
  "haversine_km (Fin x1, Fin y1) (Fin x2, Fin y2) = haversine_km (Fin x2, Fin y2) (Fin x1, Fin y1)"
proof (cases "\<bar>x2 - x1\<bar> < float_bound")
  case lat: True
  then have lat': "\<bar>x1 - x2\<bar> < float_bound" by (simp add: abs_minus_commute)
  show ?thesis
  proof (cases "\<bar>y2 - y1\<bar> < float_bound")
    case True
    then have "\<bar>y1 - y2\<bar> < float_bound" by (simp add: abs_minus_commute)
    with lat lat' True show ?thesis
      by (simp add: haversine_km_Fin hav_real_sym [of x1 y1 x2 y2])
  next
    case False
    then have a: "float_bound \<le> \<bar>y2 - y1\<bar>" and b: "float_bound \<le> \<bar>y1 - y2\<bar>"
      by (simp_all add: abs_minus_commute)
    show ?thesis
      by (simp only: haversine_km_lon_overflow [OF lat a] haversine_km_lon_overflow [OF lat' b])
  qed
next
  case False
  then have a: "float_bound \<le> \<bar>x2 - x1\<bar>" and b: "float_bound \<le> \<bar>x1 - x2\<bar>"
    by (simp_all add: abs_minus_commute)
  show ?thesis
    by (simp only: haversine_km_lat_overflow [OF a] haversine_km_lat_overflow [OF b])
qed

lemma haversine_km_Fin_result:
  assumes "haversine_km (Fin x1, Fin y1) (Fin x2, Fin y2) = Inr d"
  shows "\<exists>r. d = Fin r \<and> 0 \<le> r"
proof -
  have lat: "\<bar>x2 - x1\<bar> < float_bound"
    using assms haversine_km_lat_overflow [of x2 x1 y1 y2] by (cases "\<bar>x2 - x1\<bar> < float_bound") simp_all
  have lon: "\<bar>y2 - y1\<bar> < float_bound"
    using assms haversine_km_lon_overflow [OF lat, of y2 y1] by (cases "\<bar>y2 - y1\<bar> < float_bound") simp_all
  have "0 \<le> sqrt (hav_real x1 y1 x2 y2)" "sqrt (hav_real x1 y1 x2 y2) \<le> 1"
    using hav_real_range [of x1 y1 x2 y2] by simp_all
  then have "0 \<le> arcsin (sqrt (hav_real x1 y1 x2 y2))" by (rule arcsin_nonneg)
  then have "0 \<le> 2 * 6371 * arcsin (sqrt (hav_real x1 y1 x2 y2))" by simp
  with assms show ?thesis unfolding haversine_km_Fin [OF lat lon] by auto
qed

section \<open>Great-circle distance: the claims\<close>

text \<open>
  C6. For all pairs of points with finite coordinates, \<^verbatim>\<open>haversine_km(a, b)\<close> and
  \<^verbatim>\<open>haversine_km(b, a)\<close> have the same outcome, \<^verbatim>\<open>haversine_km(a, a)\<close> is 0, and a distance
  that is returned is never negative.
\<close>

theorem haversine_km_symmetric_zero_nonneg:
  "haversine_km (Fin x1, Fin y1) (Fin x2, Fin y2) = haversine_km (Fin x2, Fin y2) (Fin x1, Fin y1)
   \<and> haversine_km (Fin x1, Fin y1) (Fin x1, Fin y1) = Inr (Fin 0)
   \<and> (\<forall>d. haversine_km (Fin x1, Fin y1) (Fin x2, Fin y2) = Inr d \<longrightarrow> (\<exists>r. d = Fin r \<and> 0 \<le> r))"
  using haversine_km_sym [of x1 y1 x2 y2] haversine_km_same [of x1 y1] haversine_km_Fin_result
  by blast

theorem haversine_km_symmetric_zero_nonneg_witness:
  "haversine_km (Fin (90000 / (6371 * pi)), Fin 0) (Fin 0, Fin 0) = Inr (Fin 500)
   \<and> haversine_km (Fin 0, Fin 0) (Fin (90000 / (6371 * pi)), Fin 0) = Inr (Fin 500)
   \<and> haversine_km (Fin 0, Fin 0) (Fin 0, Fin 0) = Inr (Fin 0)
   \<and> (0::real) \<le> 500"
  using haversine_km_symmetric_zero_nonneg [of 0 0 "90000 / (6371 * pi)" 0] haversine_km_500
  by simp




section \<open>The kinematic pass: the claims\<close>



text \<open>
  C1. For every edge of the kinematic pass, the detector flags it as low movement if and
  only if (a) its elapsed time is known, at least \<open>min_stop_minutes\<close>, and its distance is
  at most \<open>max_jump_km\<close>, or (b) its speed is at most \<open>speed_threshold_kmh\<close>; each of the two
  is enough alone.
\<close>

theorem low_movement_iff:
  assumes "edges_of df = Inr es" and "i < length es"
  shows "length (low_flags max_jump_km min_stop_minutes speed_threshold_kmh es) = length es
       \<and> (low_flags max_jump_km min_stop_minutes speed_threshold_kmh es ! i
            \<longleftrightarrow> (\<exists>dt. delta_min (es ! i) = Some dt \<and> py_ge (Fin dt) min_stop_minutes
                        \<and> py_le (dist_km (es ! i)) max_jump_km)
                \<or> py_le (speed_kmh (es ! i)) speed_threshold_kmh)"
  using assms(2) by (cases "delta_min (es ! i)") (simp_all add: low_flags_def low_flag_def)

theorem low_movement_iff_witness:
  "low_flags (Fin (1 / 10)) (Fin 30) (Fin (- 1))
       [\<lparr>delta_min = Some 60, dist_km = Fin 0, speed_kmh = Fin 0\<rparr>] ! 0
   \<and> \<not> py_le (Fin 0) (Fin (- 1))
   \<and> edges_of [\<lparr>latitude = Num (Fin 1), longitude = Num (Fin 2), datetime = Some 0\<rparr>,
               \<lparr>latitude = Num (Fin 1), longitude = Num (Fin 2), datetime = Some 3600\<rparr>]
       = Inr [\<lparr>delta_min = Some 60, dist_km = Fin 0, speed_kmh = Fin 0\<rparr>]"
proof -
  have e: "edges_of [\<lparr>latitude = Num (Fin 1), longitude = Num (Fin 2), datetime = Some 0\<rparr>,
               \<lparr>latitude = Num (Fin 1), longitude = Num (Fin 2), datetime = Some 3600\<rparr>]
       = Inr [\<lparr>delta_min = Some 60, dist_km = Fin 0, speed_kmh = Fin 0\<rparr>]"
    by (simp add: annotate_def coords_def bindE_def haversine_km_same elapsed_min_def
        speed_of_def)
  from low_movement_iff [OF e, of 0 "Fin (1 / 10)" "Fin 30" "Fin (- 1)"] e
  show ?thesis by (simp add: py_ge_def)
qed

text \<open>
  C5. A NaN coordinate does not take the \<^verbatim>\<open>except\<close> branch of line 136, which alone
  appends the edge \<open>(None, 0.0, 0.0)\<close>: \<^verbatim>\<open>float(nan)\<close> raises nothing, the distance and the
  speed of the edge are NaN; and an infinite coordinate makes \<^verbatim>\<open>haversine_km\<close>, called
  outside the \<^verbatim>\<open>try\<close>, raise and end the pass. A \<^verbatim>\<open>None\<close> coordinate does give the edge
  \<open>(None, 0.0, 0.0)\<close>.
\<close>

theorem nan_coordinate_edge:
  "edges_of [\<lparr>latitude = Num NaN, longitude = Num (Fin 0), datetime = Some 0\<rparr>,
             \<lparr>latitude = Num (Fin 0), longitude = Num (Fin 0), datetime = Some 3600\<rparr>]
     = Inr [\<lparr>delta_min = Some 60, dist_km = NaN, speed_kmh = NaN\<rparr>]
   \<and> edges_of [\<lparr>latitude = Num PInf, longitude = Num (Fin 0), datetime = Some 0\<rparr>,
               \<lparr>latitude = Num (Fin 0), longitude = Num (Fin 0), datetime = Some 3600\<rparr>]
     = Inl ValueError
   \<and> edges_of [\<lparr>latitude = NoneVal, longitude = Num (Fin 0), datetime = Some 0\<rparr>,
               \<lparr>latitude = Num (Fin 0), longitude = Num (Fin 0), datetime = Some 3600\<rparr>]
     = Inr [\<lparr>delta_min = None, dist_km = Fin 0, speed_kmh = Fin 0\<rparr>]"
  by (simp add: annotate_def coords_def bindE_def haversine_km_def math_radians_def
      elapsed_min_def speed_of_def)

section \<open>Two rows far apart, without time\<close>

text \<open>
  C9. Two rows 500 km apart with no time data: with the jump threshold 100 of the map no
  segment is emitted, while the stop detector (default thresholds) computes speed \<open>0.0\<close>
  from the unknown elapsed time, flags the only edge by clause (b), clause (a) being false,
  and emits a stop over the rows 0 and 1.
\<close>

theorem two_rows_500_km:
  assumes d: "haversine_km (Fin x1, Fin y1) (Fin x2, Fin y2) = Inr (Fin 500)"
  shows "criar_mapa_rotas_segments [(Fin x1, Fin y1), (Fin x2, Fin y2)] = Inr []
       \<and> edges_of [\<lparr>latitude = Num (Fin x1), longitude = Num (Fin y1), datetime = None\<rparr>,
                   \<lparr>latitude = Num (Fin x2), longitude = Num (Fin y2), datetime = None\<rparr>]
           = Inr [\<lparr>delta_min = None, dist_km = Fin 500, speed_kmh = Fin 0\<rparr>]
       \<and> low_flags (Fin (1 / 10)) (Fin 30) (Fin 2)
             [\<lparr>delta_min = None, dist_km = Fin 500, speed_kmh = Fin 0\<rparr>] = [True]
       \<and> py_le (Fin 0) (Fin 2)
       \<and> detectar_paradas_default
             [\<lparr>latitude = Num (Fin x1), longitude = Num (Fin y1), datetime = None\<rparr>,
              \<lparr>latitude = Num (Fin x2), longitude = Num (Fin y2), datetime = None\<rparr>]
           = Inr [\<lparr>start_idx = 0, end_idx = 1, start_time = None, end_time = None,
                   duration_min = None,
                   centroid = (Fin ((x1 + x2) / 2), Fin ((y1 + y2) / 2))\<rparr>]"
proof -
  have seg: "criar_mapa_rotas_segments [(Fin x1, Fin y1), (Fin x2, Fin y2)] = Inr []"
    by (simp add: criar_mapa_rotas_segments_def route_segments_def d bindE_def)
  have ed: "edges_of [\<lparr>latitude = Num (Fin x1), longitude = Num (Fin y1), datetime = None\<rparr>,
                   \<lparr>latitude = Num (Fin x2), longitude = Num (Fin y2), datetime = None\<rparr>]
           = Inr [\<lparr>delta_min = None, dist_km = Fin 500, speed_kmh = Fin 0\<rparr>]"
    by (simp add: annotate_def coords_def bindE_def d elapsed_min_def speed_of_def)
  have fl: "low_flags (Fin (1 / 10)) (Fin 30) (Fin 2)
             [\<lparr>delta_min = None, dist_km = Fin 500, speed_kmh = Fin 0\<rparr>] = [True]"
    by (simp add: low_flags_def low_flag_def)
  have re: "run_end [True] 0 = 0" by (simp add: run_end.simps)
  have bs: "build_stop [\<lparr>latitude = Num (Fin x1), longitude = Num (Fin y1), datetime = None\<rparr>,
              \<lparr>latitude = Num (Fin x2), longitude = Num (Fin y2), datetime = None\<rparr>] 0 (Suc 0)
      = Inr (Some \<lparr>start_idx = 0, end_idx = 1, start_time = None, end_time = None,
                   duration_min = None,
                   centroid = (Fin ((x1 + x2) / 2), Fin ((y1 + y2) / 2))\<rparr>)"
    by (simp add: build_stop_def mean_def bindE_def elapsed_min_def Let_def)
  have "detectar_paradas_default
             [\<lparr>latitude = Num (Fin x1), longitude = Num (Fin y1), datetime = None\<rparr>,
              \<lparr>latitude = Num (Fin x2), longitude = Num (Fin y2), datetime = None\<rparr>]
           = Inr [\<lparr>start_idx = 0, end_idx = 1, start_time = None, end_time = None,
                   duration_min = None,
                   centroid = (Fin ((x1 + x2) / 2), Fin ((y1 + y2) / 2))\<rparr>]"
  proof -
    have sl: "stops_loop [\<lparr>latitude = Num (Fin x1), longitude = Num (Fin y1), datetime = None\<rparr>,
              \<lparr>latitude = Num (Fin x2), longitude = Num (Fin y2), datetime = None\<rparr>] [True] 0 []
        = Inr [\<lparr>start_idx = 0, end_idx = 1, start_time = None, end_time = None,
                   duration_min = None,
                   centroid = (Fin ((x1 + x2) / 2), Fin ((y1 + y2) / 2))\<rparr>]"
      by (simp add: stops_loop.simps re bs)
    show ?thesis
      unfolding detectar_paradas_default_def detectar_paradas_def ed
      by (simp add: bindE_def fl sl)
  qed
  with seg ed fl show ?thesis by simp
qed

theorem two_rows_500_km_witness:
  "haversine_km (Fin 0, Fin 0) (Fin (90000 / (6371 * pi)), Fin 0) = Inr (Fin 500)
   \<and> criar_mapa_rotas_segments [(Fin 0, Fin 0), (Fin (90000 / (6371 * pi)), Fin 0)] = Inr []
   \<and> detectar_paradas_default
         [\<lparr>latitude = Num (Fin 0), longitude = Num (Fin 0), datetime = None\<rparr>,
          \<lparr>latitude = Num (Fin (90000 / (6371 * pi))), longitude = Num (Fin 0), datetime = None\<rparr>]
       = Inr [\<lparr>start_idx = 0, end_idx = 1, start_time = None, end_time = None,
               duration_min = None,
               centroid = (Fin (45000 / (6371 * pi)), Fin 0)\<rparr>]"
  using two_rows_500_km [OF haversine_km_500] haversine_km_500 by simp

section \<open>The stop detector: the claims\<close>

text \<open>
  C2, as stated: every maximal run of flagged edges yields a stop, a run of one edge
  yielding a stop over two rows. Two rows whose coordinates are all NaN, without time,
  have their only edge flagged (speed \<open>0.0\<close>), and line 181 discards the run: no stop.
\<close>

theorem all_nan_run_discarded:
  "maximal_run (flags_of [\<lparr>latitude = Num (NaN), longitude = Num (NaN), datetime = None\<rparr>,
      \<lparr>latitude = Num (NaN), longitude = Num (NaN), datetime = None\<rparr>] (Fin (1 / 10)) (Fin 30) (Fin 2)) 0 0
   \<and> detectar_paradas_default [\<lparr>latitude = Num (NaN), longitude = Num (NaN), datetime = None\<rparr>,
      \<lparr>latitude = Num (NaN), longitude = Num (NaN), datetime = None\<rparr>] = Inr []"
  using detectar_nan_rows
  by (simp add: flags_of_nan_rows maximal_run_def detectar_paradas_default_def)

text \<open>
  C2, amended: when \<^verbatim>\<open>detectar_paradas\<close> returns, its list is in ascending order of
  \<open>start_idx\<close>; its stops do not overlap, each ending before the next one starts; every stop
  has \<open>start_idx < end_idx\<close>, lies within the table, and is a maximal run of flagged edges
  \<open>start_idx, \<dots>, end_idx - 1\<close>; every maximal run of flagged edges \<open>a, \<dots>, e\<close> whose rows
  \<open>a, \<dots>, e + 1\<close> have a latitude present yields a stop over the rows \<open>[a, e + 1]\<close>, one
  row more than it has edges (two rows for a run of one edge); and a maximal run of
  flagged edges none of whose rows has a latitude present yields no stop.
\<close>

theorem stops_sorted_disjoint_runs:
  assumes "detectar_paradas df mj ms st = Inr stops"
  shows "sorted_wrt (\<lambda>a b. start_idx a < start_idx b) stops
       \<and> sorted_wrt (\<lambda>a b. end_idx a < start_idx b) stops
       \<and> (\<forall>s\<in>set stops. start_idx s < end_idx s \<and> end_idx s < length df
             \<and> maximal_run (flags_of df mj ms st) (start_idx s) (end_idx s - 1))
       \<and> (\<forall>a e. maximal_run (flags_of df mj ms st) a e \<and> present_lats df a (e + 1) \<noteq> []
             \<longrightarrow> (\<exists>s\<in>set stops. start_idx s = a \<and> end_idx s = e + 1
                   \<and> length [start_idx s ..< end_idx s + 1] = length [a ..< e + 1] + 1))
       \<and> (\<forall>a e. maximal_run (flags_of df mj ms st) a e \<and> present_lats df a (e + 1) = []
             \<longrightarrow> (\<forall>s\<in>set stops. start_idx s \<noteq> a))"
proof -
  let ?fl = "flags_of df mj ms st"
  from detectar_paradas_char [OF assms]
  have ok: "stops_ok df ?fl 0 stops" and len: "length ?fl = length df - 1" by simp_all
  from ok have el: "\<And>s. s \<in> set stops \<Longrightarrow> start_idx s < end_idx s
        \<and> maximal_run ?fl (start_idx s) (end_idx s - 1)
        \<and> build_stop df (start_idx s) (end_idx s) = Inr (Some s)"
    and sw: "sorted_wrt (\<lambda>a b. end_idx a < start_idx b) stops"
    and co: "\<And>a e. maximal_run ?fl a e \<Longrightarrow> has_lat df a (e + 1)
        \<Longrightarrow> \<exists>s\<in>set stops. start_idx s = a \<and> end_idx s = e + 1"
    unfolding stops_ok_def by auto
  have sw1: "sorted_wrt (\<lambda>a b. start_idx a < start_idx b) stops"
  proof (rule sorted_wrt_mono_rel [OF _ sw])
    fix x y assume "x \<in> set stops" "end_idx x < start_idx y"
    with el [of x] show "start_idx x < start_idx y" by simp
  qed
  have el': "start_idx s < end_idx s \<and> end_idx s < length df
      \<and> maximal_run ?fl (start_idx s) (end_idx s - 1)" if "s \<in> set stops" for s
  proof -
    from el [OF that] have a: "start_idx s < end_idx s"
      and m: "maximal_run ?fl (start_idx s) (end_idx s - 1)" by simp_all
    from m have "end_idx s - 1 < length ?fl" by (simp add: maximal_run_def)
    with len a have "end_idx s < length df" by simp
    with a m show ?thesis by simp
  qed
  have co': "\<exists>s\<in>set stops. start_idx s = a \<and> end_idx s = e + 1
        \<and> length [start_idx s ..< end_idx s + 1] = length [a ..< e + 1] + 1"
    if "maximal_run ?fl a e" "present_lats df a (e + 1) \<noteq> []" for a e
  proof -
    from that(2) have "has_lat df a (e + 1)" by (simp add: present_lats_has_lat)
    from co [OF that(1) this] obtain s where s: "s \<in> set stops" "start_idx s = a"
      "end_idx s = e + 1" by blast
    from that(1) have "a \<le> e" by (simp add: maximal_run_def)
    with s have "length [start_idx s ..< end_idx s + 1] = length [a ..< e + 1] + 1" by simp
    with s show ?thesis by blast
  qed
  have dis: "start_idx s \<noteq> a"
    if "maximal_run ?fl a e" "present_lats df a (e + 1) = []" "s \<in> set stops" for a e s
  proof
    assume eq: "start_idx s = a"
    from el [OF that(3)] have m: "maximal_run ?fl (start_idx s) (end_idx s - 1)"
      and lt: "start_idx s < end_idx s"
      and b: "build_stop df (start_idx s) (end_idx s) = Inr (Some s)" by simp_all
    from maximal_run_same_start [OF that(1)] m eq have "e = end_idx s - 1" by simp
    with lt have "e + 1 = end_idx s" by simp
    with build_stop_Some(3) [OF b] eq have "has_lat df a (e + 1)" by simp
    with that(2) show False by (simp add: present_lats_has_lat [symmetric])
  qed
  from sw1 sw el' co' dis show ?thesis by blast
qed

theorem stops_sorted_disjoint_runs_witness:
  "detectar_paradas [\<lparr>latitude = Num (Fin 0), longitude = Num (Fin 0), datetime = Some 0\<rparr>,
      \<lparr>latitude = Num (Fin 0), longitude = Num (Fin 0), datetime = Some 60\<rparr>,
      \<lparr>latitude = Num (Fin (90000 / (6371 * pi))), longitude = Num (Fin 0), datetime = Some 120\<rparr>,
      \<lparr>latitude = Num (Fin (90000 / (6371 * pi))), longitude = Num (Fin 0), datetime = Some 180\<rparr>] (Fin (1 / 10)) (Fin 30) (Fin 2)
     = Inr [\<lparr>start_idx = 0, end_idx = 1, start_time = Some 0, end_time = Some 60,
        duration_min = Some 1, centroid = (Fin 0, Fin 0)\<rparr>,
            \<lparr>start_idx = 2, end_idx = 3, start_time = Some 120, end_time = Some 180,
        duration_min = Some 1, centroid = (Fin (90000 / (6371 * pi)), Fin 0)\<rparr>]
   \<and> sorted_wrt (\<lambda>a b. end_idx a < start_idx b)
       [\<lparr>start_idx = 0, end_idx = 1, start_time = Some 0, end_time = Some 60,
        duration_min = Some 1, centroid = (Fin 0, Fin 0)\<rparr>,
        \<lparr>start_idx = 2, end_idx = 3, start_time = Some 120, end_time = Some 180,
        duration_min = Some 1, centroid = (Fin (90000 / (6371 * pi)), Fin 0)\<rparr>]
   \<and> maximal_run (flags_of [\<lparr>latitude = Num (Fin 0), longitude = Num (Fin 0), datetime = Some 0\<rparr>,
      \<lparr>latitude = Num (Fin 0), longitude = Num (Fin 0), datetime = Some 60\<rparr>,
      \<lparr>latitude = Num (Fin (90000 / (6371 * pi))), longitude = Num (Fin 0), datetime = Some 120\<rparr>,
      \<lparr>latitude = Num (Fin (90000 / (6371 * pi))), longitude = Num (Fin 0), datetime = Some 180\<rparr>] (Fin (1 / 10)) (Fin 30) (Fin 2)) 2 2
   \<and> detectar_paradas [\<lparr>latitude = Num (NaN), longitude = Num (NaN), datetime = None\<rparr>,
      \<lparr>latitude = Num (NaN), longitude = Num (NaN), datetime = None\<rparr>] (Fin (1 / 10)) (Fin 30) (Fin 2) = Inr []
   \<and> maximal_run (flags_of [\<lparr>latitude = Num (NaN), longitude = Num (NaN), datetime = None\<rparr>,
      \<lparr>latitude = Num (NaN), longitude = Num (NaN), datetime = None\<rparr>] (Fin (1 / 10)) (Fin 30) (Fin 2)) 0 0
   \<and> present_lats [\<lparr>latitude = Num (NaN), longitude = Num (NaN), datetime = None\<rparr>,
      \<lparr>latitude = Num (NaN), longitude = Num (NaN), datetime = None\<rparr>] 0 1 = []"
proof -
  have m: "maximal_run (flags_of [\<lparr>latitude = Num (NaN), longitude = Num (NaN), datetime = None\<rparr>,
      \<lparr>latitude = Num (NaN), longitude = Num (NaN), datetime = None\<rparr>] (Fin (1 / 10)) (Fin 30) (Fin 2)) 0 0"
    by (simp add: flags_of_nan_rows maximal_run_def)
  have p: "present_lats [\<lparr>latitude = Num (NaN), longitude = Num (NaN), datetime = None\<rparr>,
      \<lparr>latitude = Num (NaN), longitude = Num (NaN), datetime = None\<rparr>] 0 1 = []"
    by (simp add: present_lats_def)
  from stops_sorted_disjoint_runs [OF detectar_rows4]
  have "sorted_wrt (\<lambda>a b. end_idx a < start_idx b)
       [\<lparr>start_idx = 0, end_idx = 1, start_time = Some 0, end_time = Some 60,
        duration_min = Some 1, centroid = (Fin 0, Fin 0)\<rparr>,
        \<lparr>start_idx = 2, end_idx = 3, start_time = Some 120, end_time = Some 180,
        duration_min = Some 1, centroid = (Fin (90000 / (6371 * pi)), Fin 0)\<rparr>]"
    and "maximal_run (flags_of [\<lparr>latitude = Num (Fin 0), longitude = Num (Fin 0), datetime = Some 0\<rparr>,
      \<lparr>latitude = Num (Fin 0), longitude = Num (Fin 0), datetime = Some 60\<rparr>,
      \<lparr>latitude = Num (Fin (90000 / (6371 * pi))), longitude = Num (Fin 0), datetime = Some 120\<rparr>,
      \<lparr>latitude = Num (Fin (90000 / (6371 * pi))), longitude = Num (Fin 0), datetime = Some 180\<rparr>] (Fin (1 / 10)) (Fin 30) (Fin 2)) 2 2"
    by simp_all
  moreover from stops_sorted_disjoint_runs [OF detectar_nan_rows] m p
  have "detectar_paradas [\<lparr>latitude = Num (NaN), longitude = Num (NaN), datetime = None\<rparr>,
      \<lparr>latitude = Num (NaN), longitude = Num (NaN), datetime = None\<rparr>] (Fin (1 / 10)) (Fin 30) (Fin 2) = Inr []" by (simp add: detectar_nan_rows)
  ultimately show ?thesis using detectar_rows4 m p by simp
qed

text \<open>
  C4. The guard of line 181 tests the latitudes only, and line 184 divides by the number
  of longitudes present: two rows with a latitude and a NaN longitude, without time, make
  the call raise \<^verbatim>\<open>ZeroDivisionError\<close> where the run was to be discarded. And three rows at
  one place, the middle one with NaN coordinates, give no stop when they carry timestamps
  10 minutes apart, the two edges having a NaN speed that no comparison flags; the same
  rows without time give one stop over the rows 0 to 2, its centroid taken from the two
  rows that have coordinates.
\<close>

theorem centroid_guard_tests_latitudes_only:
  "detectar_paradas_default [\<lparr>latitude = Num (Fin 0), longitude = Num (NaN), datetime = None\<rparr>,
      \<lparr>latitude = Num (Fin 0), longitude = Num (NaN), datetime = None\<rparr>] = Inl ZeroDivisionError
   \<and> detectar_paradas_default [\<lparr>latitude = Num (Fin 0), longitude = Num (Fin 0), datetime = Some 0\<rparr>,
      \<lparr>latitude = Num (NaN), longitude = Num (NaN), datetime = Some 600\<rparr>,
      \<lparr>latitude = Num (Fin 0), longitude = Num (Fin 0), datetime = Some 1200\<rparr>] = Inr []
   \<and> detectar_paradas_default [\<lparr>latitude = Num (Fin 0), longitude = Num (Fin 0), datetime = None\<rparr>,
      \<lparr>latitude = Num (NaN), longitude = Num (NaN), datetime = None\<rparr>,
      \<lparr>latitude = Num (Fin 0), longitude = Num (Fin 0), datetime = None\<rparr>]
       = Inr [\<lparr>start_idx = 0, end_idx = 2, start_time = None, end_time = None,
        duration_min = None, centroid = (Fin 0, Fin 0)\<rparr>]"
  using longitudes_missing_raises detectar_scenario_C_time detectar_scenario_C_no_time
  by (simp add: detectar_paradas_default_def)

text \<open>
  C10, as stated: a call with a threshold below zero is rejected before any processing.
  No line of \<^verbatim>\<open>detectar_paradas\<close> tests a threshold: with \<open>max_jump_km = -1\<close> and
  \<open>min_stop_minutes = -1\<close> the table is processed and a stop comes out.
\<close>

theorem negative_thresholds_processed:
  "detectar_paradas [\<lparr>latitude = Num (Fin 0), longitude = Num (Fin 0), datetime = None\<rparr>,
                     \<lparr>latitude = Num (Fin 0), longitude = Num (Fin 0), datetime = None\<rparr>]
       (Fin (- 1)) (Fin (- 1)) (Fin 2)
     = Inr [\<lparr>start_idx = 0, end_idx = 1, start_time = None, end_time = None,
             duration_min = None, centroid = (Fin 0, Fin 0)\<rparr>]"
  by (rule detectar_two_rows_same)

text \<open>
  C10, amended: \<^verbatim>\<open>detectar_paradas\<close> does not validate its thresholds; whatever their
  values, negative ones included, the call returns a list of stops whenever the kinematic
  pass raises nothing and every row has both coordinates present.
\<close>

theorem thresholds_not_validated:
  assumes "edges_of df = Inr es" and "\<forall>r\<in>set df. present_row r"
  shows "\<exists>stops. detectar_paradas df max_jump_km min_stop_minutes speed_threshold_kmh = Inr stops"
  using assms by (rule detectar_paradas_returns)

theorem thresholds_not_validated_witness:
  "edges_of [\<lparr>latitude = Num (Fin 0), longitude = Num (Fin 0), datetime = None\<rparr>,
             \<lparr>latitude = Num (Fin 0), longitude = Num (Fin 0), datetime = None\<rparr>]
     = Inr [\<lparr>delta_min = None, dist_km = Fin 0, speed_kmh = Fin 0\<rparr>]
   \<and> present_row \<lparr>latitude = Num (Fin 0), longitude = Num (Fin 0), datetime = None\<rparr>
   \<and> (\<exists>stops. detectar_paradas
         [\<lparr>latitude = Num (Fin 0), longitude = Num (Fin 0), datetime = None\<rparr>,
          \<lparr>latitude = Num (Fin 0), longitude = Num (Fin 0), datetime = None\<rparr>]
         (Fin (- 1)) (Fin (- 5)) (Fin (- 2)) = Inr stops)"
proof -
  have e: "edges_of [\<lparr>latitude = Num (Fin 0), longitude = Num (Fin 0), datetime = None\<rparr>,
             \<lparr>latitude = Num (Fin 0), longitude = Num (Fin 0), datetime = None\<rparr>]
     = Inr [\<lparr>delta_min = None, dist_km = Fin 0, speed_kmh = Fin 0\<rparr>]"
    by (simp add: annotate_def coords_def bindE_def haversine_km_same elapsed_min_def
        speed_of_def)
  have p: "\<forall>r\<in>set [\<lparr>latitude = Num (Fin 0), longitude = Num (Fin 0), datetime = None\<rparr>,
             \<lparr>latitude = Num (Fin 0), longitude = Num (Fin 0), datetime = None\<rparr>].
      present_row r"
    by (simp add: present_row_def)
  from thresholds_not_validated [OF e p, of "Fin (- 1)" "Fin (- 5)" "Fin (- 2)"] e p
  show ?thesis by simp
qed

section \<open>Route segments: the claim\<close>

text \<open>
  C3, as stated: the segments, concatenated, are the input sequence without the isolated
  single points stranded between two large jumps. A first point followed by one large jump
  is between no two jumps, and no segment keeps it (line 371).
\<close>

theorem first_point_beside_one_jump_dropped:
  "route_segments (Fin 100)
     [(Fin 0, Fin 0), (Fin (90000 / (6371 * pi)), Fin 0), (Fin (90000 / (6371 * pi)), Fin 0)]
     = Inr [[(Fin (90000 / (6371 * pi)), Fin 0), (Fin (90000 / (6371 * pi)), Fin 0)]]
   \<and> spec_retained (Fin 100)
       [(Fin 0, Fin 0), (Fin (90000 / (6371 * pi)), Fin 0), (Fin (90000 / (6371 * pi)), Fin 0)]
     = [(Fin 0, Fin 0), (Fin (90000 / (6371 * pi)), Fin 0), (Fin (90000 / (6371 * pi)), Fin 0)]"
proof -
  have "route_segments (Fin 100)
     [(Fin 0, Fin 0), (Fin (90000 / (6371 * pi)), Fin 0), (Fin (90000 / (6371 * pi)), Fin 0)]
     = Inr [[(Fin (90000 / (6371 * pi)), Fin 0), (Fin (90000 / (6371 * pi)), Fin 0)]]"
    by (simp add: route_segments_def bindE_def haversine_km_same haversine_km_500)
  moreover have "spec_retained (Fin 100)
       [(Fin 0, Fin 0), (Fin (90000 / (6371 * pi)), Fin 0), (Fin (90000 / (6371 * pi)), Fin 0)]
     = [(Fin 0, Fin 0), (Fin (90000 / (6371 * pi)), Fin 0), (Fin (90000 / (6371 * pi)), Fin 0)]"
    by (simp add: spec_retained_def between_jumps_def near_def haversine_km_same
        haversine_km_500 upt_conv_Cons)
  ultimately show ?thesis by simp
qed

text \<open>
  C3, amended: when the segment loop returns, every segment has at least 2 points,
  consecutive points of a segment being at most \<^verbatim>\<open>max_jump_km\<close> apart; two adjacent input
  points further apart than \<^verbatim>\<open>max_jump_km\<close> end up in different segments, the segments
  being those of the input up to the first of the two followed by those of the input from
  the second on; and the segments, concatenated, are the input sequence without the points
  that have no neighbour within \<^verbatim>\<open>max_jump_km\<close>, an end of the sequence counting like a
  jump: a point between two large jumps, a first or last point beside one, or the only
  point of the input.
\<close>

theorem route_segments_correct:
  assumes "route_segments max_jump_km pontos = Inr segments"
  shows "(\<forall>s\<in>set segments. 2 \<le> length s
           \<and> (\<forall>i. i + 1 < length s \<longrightarrow> near max_jump_km (s ! i) (s ! (i + 1))))
     \<and> concat segments = retained max_jump_km pontos
     \<and> (\<forall>xs a b ys. pontos = xs @ a # b # ys \<and> \<not> near max_jump_km a b \<longrightarrow>
           (\<exists>s1 s2. route_segments max_jump_km (xs @ [a]) = Inr s1
                 \<and> route_segments max_jump_km (b # ys) = Inr s2
                 \<and> segments = s1 @ s2))"
proof -
  let ?mj = max_jump_km
  let ?segs = "filter (\<lambda>c. 2 \<le> length c) (chunks ?mj pontos)"
  have ok: "successively dist_returns pontos" by (rule route_segments_returns [OF assms])
  from route_segments_chunks [OF ok, of ?mj] assms have r: "segments = ?segs" by simp
  have el: "2 \<le> length s \<and> (\<forall>i. i + 1 < length s \<longrightarrow> near ?mj (s ! i) (s ! (i + 1)))"
    if "s \<in> set ?segs" for s
  proof -
    from that have "s \<in> set (chunks ?mj pontos)" "2 \<le> length s" by simp_all
    from chunks_successively [OF this(1)] successively_nth [of "near ?mj" s] \<open>2 \<le> length s\<close>
    show ?thesis by blast
  qed
  have sp: "\<exists>s1 s2. route_segments ?mj (xs @ [a]) = Inr s1
                 \<and> route_segments ?mj (b # ys) = Inr s2 \<and> ?segs = s1 @ s2"
    if "pontos = xs @ a # b # ys" "\<not> near ?mj a b" for xs a b ys
  proof -
    from ok that(1) have "successively dist_returns ((xs @ [a]) @ (b # ys))" by simp
    then have "successively dist_returns (xs @ [a])" "successively dist_returns (b # ys)"
      unfolding successively_append_iff by simp_all
    then have "route_segments ?mj (xs @ [a]) = Inr (filter (\<lambda>c. 2 \<le> length c) (chunks ?mj (xs @ [a])))"
      "route_segments ?mj (b # ys) = Inr (filter (\<lambda>c. 2 \<le> length c) (chunks ?mj (b # ys)))"
      by (simp_all only: route_segments_chunks)
    moreover have "?segs = filter (\<lambda>c. 2 \<le> length c) (chunks ?mj (xs @ [a]))
        @ filter (\<lambda>c. 2 \<le> length c) (chunks ?mj (b # ys))"
      unfolding that(1) chunks_split [OF that(2)] by simp
    ultimately show ?thesis by blast
  qed
  from el concat_segments_retained [of ?mj pontos] sp show ?thesis unfolding r by blast
qed

theorem route_segments_correct_witness:
  "route_segments (Fin 100) [(Fin 0, Fin 0), (Fin 0, Fin 0), (Fin (90000 / (6371 * pi)), Fin 0)]
       = Inr [[(Fin 0, Fin 0), (Fin 0, Fin 0)]]
   \<and> retained (Fin 100) [(Fin 0, Fin 0), (Fin 0, Fin 0), (Fin (90000 / (6371 * pi)), Fin 0)]
       = [(Fin 0, Fin 0), (Fin 0, Fin 0)]"
proof -
  let ?pts = "[(Fin 0, Fin 0), (Fin 0, Fin 0), (Fin (90000 / (6371 * pi)), Fin 0)]"
  have r: "route_segments (Fin 100) ?pts = Inr [[(Fin 0, Fin 0), (Fin 0, Fin 0)]]"
    by (simp add: route_segments_def bindE_def haversine_km_same haversine_km_500)
  from route_segments_correct [OF r]
  have "retained (Fin 100) ?pts = [(Fin 0, Fin 0), (Fin 0, Fin 0)]" by simp
  with r show ?thesis by simp
qed

end
